theory Spec2Isabelle
  imports Main "HOL-Library.AList"
begin

section \<open>Data model\<close>

subsection \<open>Kinds and types of destinations\<close>

text \<open>
  The kinds of Go's \<^verbatim>\<open>reflect\<close> package, on which \<^verbatim>\<open>setValue\<close> dispatches.
  The constructors carry a leading K because some of the Go names are taken in HOL.
\<close>

datatype kind =
    KInvalid | KBool
  | KInt | KInt8 | KInt16 | KInt32 | KInt64
  | KUint | KUint8 | KUint16 | KUint32 | KUint64 | KUintptr
  | KFloat32 | KFloat64 | KComplex64 | KComplex128
  | KArray | KChan | KFunc | KInterface | KMap | KPtr | KSlice
  | KString | KStruct | KUnsafePointer

text \<open>\<^verbatim>\<open>Kind.String()\<close>, used by the \<^verbatim>\<open>%s\<close> and \<^verbatim>\<open>%v\<close> verbs of the error messages.\<close>

fun kindString :: "kind \<Rightarrow> string" where
  "kindString KInvalid = ''invalid''"
| "kindString KBool = ''bool''"
| "kindString KInt = ''int''"
| "kindString KInt8 = ''int8''"
| "kindString KInt16 = ''int16''"
| "kindString KInt32 = ''int32''"
| "kindString KInt64 = ''int64''"
| "kindString KUint = ''uint''"
| "kindString KUint8 = ''uint8''"
| "kindString KUint16 = ''uint16''"
| "kindString KUint32 = ''uint32''"
| "kindString KUint64 = ''uint64''"
| "kindString KUintptr = ''uintptr''"
| "kindString KFloat32 = ''float32''"
| "kindString KFloat64 = ''float64''"
| "kindString KComplex64 = ''complex64''"
| "kindString KComplex128 = ''complex128''"
| "kindString KArray = ''array''"
| "kindString KChan = ''chan''"
| "kindString KFunc = ''func''"
| "kindString KInterface = ''interface''"
| "kindString KMap = ''map''"
| "kindString KPtr = ''ptr''"
| "kindString KSlice = ''slice''"
| "kindString KString = ''string''"
| "kindString KStruct = ''struct''"
| "kindString KUnsafePointer = ''unsafe.Pointer''"

text \<open>
  The width of an integer type. \<open>W0\<close> is the platform width of \<^verbatim>\<open>int\<close> and
  \<^verbatim>\<open>uint\<close>, taken as 64 bits.
\<close>

datatype width = W0 | W8 | W16 | W32 | W64

fun bits :: "width \<Rightarrow> nat" where
  "bits W0 = 64"
| "bits W8 = 8"
| "bits W16 = 16"
| "bits W32 = 32"
| "bits W64 = 64"

text \<open>
  The static type of a destination. \<open>TDuration\<close> is \<^verbatim>\<open>time.Duration\<close> (of kind
  int64), \<open>TTime\<close> is \<^verbatim>\<open>time.Time\<close> (of kind struct), \<open>TStruct\<close> any other struct
  type, \<open>TOther k\<close> a type of one of the remaining kinds (maps, channels, functions,
  interfaces, arrays, complex numbers, the invalid value).
\<close>

datatype gotype =
    TBool
  | TInt width
  | TDuration
  | TUint width
  | TFloat32
  | TFloat64
  | TString
  | TTime
  | TStruct
  | TPtr gotype
  | TSlice gotype
  | TOther kind

fun intKind :: "width \<Rightarrow> kind" where
  "intKind W0 = KInt"
| "intKind W8 = KInt8"
| "intKind W16 = KInt16"
| "intKind W32 = KInt32"
| "intKind W64 = KInt64"

fun uintKind :: "width \<Rightarrow> kind" where
  "uintKind W0 = KUint"
| "uintKind W8 = KUint8"
| "uintKind W16 = KUint16"
| "uintKind W32 = KUint32"
| "uintKind W64 = KUint64"

fun kindOf :: "gotype \<Rightarrow> kind" where
  "kindOf TBool = KBool"
| "kindOf (TInt w) = intKind w"
| "kindOf TDuration = KInt64"
| "kindOf (TUint w) = uintKind w"
| "kindOf TFloat32 = KFloat32"
| "kindOf TFloat64 = KFloat64"
| "kindOf TString = KString"
| "kindOf TTime = KStruct"
| "kindOf TStruct = KStruct"
| "kindOf (TPtr t) = KPtr"
| "kindOf (TSlice t) = KSlice"
| "kindOf (TOther k) = k"

subsection \<open>Stored values\<close>

text \<open>
  What a destination holds. Floating-point numbers and instants are values of the
  type parameters \<open>'f\<close> and \<open>'t\<close>: their arithmetic belongs to Go's library.
  A pointer holds \<open>None\<close> when it is nil. \<open>DOpaque\<close> stands for the content of a
  struct other than \<^verbatim>\<open>time.Time\<close> and of the kinds that \<^verbatim>\<open>setValue\<close> rejects.
\<close>

datatype ('f, 't) data =
    DBool bool
  | DInt int
  | DUint nat
  | DFloat 'f
  | DString string
  | DTime 't
  | DOpaque
  | DPtr "('f, 't) data option"
  | DSlice "('f, 't) data list"

subsection \<open>Errors\<close>

text \<open>
  \<open>Errorf m\<close> is \<^verbatim>\<open>fmt.Errorf\<close> with the finished message \<open>m\<close>;
  \<open>Wrapf p e q\<close> is \<^verbatim>\<open>fmt.Errorf\<close> whose message is \<open>p\<close>, the message of \<open>e\<close>,
  then \<open>q\<close>; \<open>NumError f s r\<close> is \<^verbatim>\<open>*strconv.NumError{Func: f, Num: s, Err: r}\<close>;
  \<open>LibError m\<close> is an error of a library that is not modelled (time, floating
  point, the decoders, the merge); \<open>ErrFileNotFound\<close> is the package's sentinel;
  \<open>FieldErrors\<close> is the \<^verbatim>\<open>fieldErrors\<close> map from paths to errors.
\<close>

datatype numerr = ErrSyntax | ErrRange

datatype error =
    Errorf string
  | Wrapf string error string
  | NumError string string numerr
  | LibError string
  | ErrFileNotFound
  | FieldErrors "(string \<times> error) list"

subsection \<open>Collaborators\<close>

text \<open>
  Functions that \<^verbatim>\<open>confucius.go\<close> calls and that are not part of it. From Go's
  library: \<^verbatim>\<open>strconv.ParseFloat(_, 64)\<close>, the narrowing to \<^verbatim>\<open>float32\<close> that
  \<^verbatim>\<open>SetFloat\<close> does, \<^verbatim>\<open>time.ParseDuration\<close> (nanoseconds), \<^verbatim>\<open>time.Parse\<close>
  (layout first), the zero values of the two parameter types, and
  \<^verbatim>\<open>strings.Map(unicode.ToUpper, _)\<close>, which \<^verbatim>\<open>strings.ToUpper\<close> applies to a
  string that is not all ASCII. From the package's other files:
  \<^verbatim>\<open>stringSlice\<close> and \<^verbatim>\<open>isZero\<close>. Every theorem below holds for all of them.
\<close>

record ('f, 't) lib =
  ParseFloat :: "string \<Rightarrow> error + 'f"
  toFloat32 :: "'f \<Rightarrow> 'f"
  ParseDuration :: "string \<Rightarrow> error + int"
  ParseTime :: "string \<Rightarrow> string \<Rightarrow> error + 't"
  floatZero :: "'f"
  timeZero :: "'t"
  unicodeToUpper :: "string \<Rightarrow> string"
  stringSlice :: "string \<Rightarrow> string list"
  isZero :: "gotype \<Rightarrow> ('f, 't) data \<Rightarrow> bool"

text \<open>The zero value of a type, as \<^verbatim>\<open>reflect.New\<close> and \<^verbatim>\<open>reflect.MakeSlice\<close> give it.\<close>

fun zero :: "('f, 't) lib \<Rightarrow> gotype \<Rightarrow> ('f, 't) data" where
  "zero L TBool = DBool False"
| "zero L (TInt w) = DInt 0"
| "zero L TDuration = DInt 0"
| "zero L (TUint w) = DUint 0"
| "zero L TFloat32 = DFloat (floatZero L)"
| "zero L TFloat64 = DFloat (floatZero L)"
| "zero L TString = DString []"
| "zero L TTime = DTime (timeZero L)"
| "zero L TStruct = DOpaque"
| "zero L (TPtr t) = DPtr None"
| "zero L (TSlice t) = DSlice []"
| "zero L (TOther k) = DOpaque"

subsection \<open>The loader's configuration\<close>

record confucius =
  useEnv :: bool
  useReader :: bool
  dirs :: "string list"
  profiles :: "string list"
  filename :: string
  tag :: string
  timeLayout :: string
  envPrefix :: string
  profileLayout :: string
  readerConfig :: string
  readerDecoder :: string

definition defaultConfucius :: confucius where
  "defaultConfucius =
     \<lparr> useEnv = False, useReader = False, dirs = [''.''], profiles = [],
       filename = ''config.yaml'', tag = ''conf'',
       timeLayout = ''2006-01-02T15:04:05Z07:00'', envPrefix = [],
       profileLayout = ''config.test.yaml'', readerConfig = [], readerDecoder = [] \<rparr>"

section \<open>strconv\<close>

text \<open>
  \<^verbatim>\<open>strconv.ParseBool\<close>, \<^verbatim>\<open>strconv.ParseUint(s, 10, 64)\<close> and
  \<^verbatim>\<open>strconv.ParseInt(s, 10, 64)\<close>, with the base and the bit size that \<^verbatim>\<open>setValue\<close>
  passes. Go computes in \<^verbatim>\<open>uint64\<close>; the model computes in \<open>nat\<close> and tests the
  bound where Go tests the wrap-around.
\<close>

definition ParseBool :: "string \<Rightarrow> error + bool" where
  "ParseBool str =
     (if str \<in> set [''1'', ''t'', ''T'', ''true'', ''TRUE'', ''True''] then Inr True
      else if str \<in> set [''0'', ''f'', ''F'', ''false'', ''FALSE'', ''False''] then Inr False
      else Inl (NumError ''ParseBool'' str ErrSyntax))"

definition isDigit :: "char \<Rightarrow> bool" where
  "isDigit c = (48 \<le> (of_char c :: nat) \<and> (of_char c :: nat) \<le> 57)"

definition digitVal :: "char \<Rightarrow> nat" where
  "digitVal c = of_char c - 48"

definition maxUint64 :: nat where
  "maxUint64 = 2 ^ 64 - 1"

fun parseUintLoop :: "string \<Rightarrow> string \<Rightarrow> nat \<Rightarrow> error + nat" where
  "parseUintLoop s0 [] n = Inr n"
| "parseUintLoop s0 (c # cs) n =
     (if \<not> isDigit c then Inl (NumError ''ParseUint'' s0 ErrSyntax)
      else if maxUint64 div 10 + 1 \<le> n then Inl (NumError ''ParseUint'' s0 ErrRange)
      else if maxUint64 < n * 10 + digitVal c then Inl (NumError ''ParseUint'' s0 ErrRange)
      else parseUintLoop s0 cs (n * 10 + digitVal c))"

definition ParseUint :: "string \<Rightarrow> error + nat" where
  "ParseUint s =
     (if s = [] then Inl (NumError ''ParseUint'' s ErrSyntax) else parseUintLoop s s 0)"

text \<open>
  \<^verbatim>\<open>ParseInt\<close> picks the sign off, parses the rest unsigned and checks it against
  \<open>2 ^ 63\<close>. A range error of \<^verbatim>\<open>ParseUint\<close> comes with the value \<open>maxUint64\<close>
  and falls into one of the two range checks.
\<close>

definition ParseInt :: "string \<Rightarrow> error + int" where
  "ParseInt s0 =
     (if s0 = [] then Inl (NumError ''ParseInt'' s0 ErrSyntax)
      else
        let neg = (hd s0 = CHR ''-'');
            s = (if hd s0 = CHR ''+'' \<or> hd s0 = CHR ''-'' then tl s0 else s0)
        in case ParseUint s of
             Inl (NumError f x ErrSyntax) \<Rightarrow> Inl (NumError ''ParseInt'' s0 ErrSyntax)
           | Inl e \<Rightarrow> Inl (NumError ''ParseInt'' s0 ErrRange)
           | Inr un \<Rightarrow>
               if \<not> neg \<and> 2 ^ 63 \<le> un then Inl (NumError ''ParseInt'' s0 ErrRange)
               else if neg \<and> 2 ^ 63 < un then Inl (NumError ''ParseInt'' s0 ErrRange)
               else Inr (if neg then - int un else int un))"

section \<open>Value coercion\<close>

text \<open>
  \<^verbatim>\<open>reflect.Value.SetInt\<close> and \<^verbatim>\<open>SetUint\<close> convert the 64-bit argument to the
  destination's type, which keeps the low bits.
\<close>

definition wrapInt :: "nat \<Rightarrow> int \<Rightarrow> int" where
  "wrapInt b x = (x + 2 ^ (b - 1)) mod 2 ^ b - 2 ^ (b - 1)"

definition wrapUint :: "nat \<Rightarrow> nat \<Rightarrow> nat" where
  "wrapUint b x = x mod 2 ^ b"

text \<open>
  The loop of \<^verbatim>\<open>setSlice\<close>: \<open>f\<close> sets one fresh element from one string and the
  loop returns at the first error.
\<close>

fun setElems :: "(string \<Rightarrow> 'a \<times> error option) \<Rightarrow> string list \<Rightarrow> error + 'a list" where
  "setElems f [] = Inr []"
| "setElems f (s # ss) =
     (case f s of
        (x, Some e) \<Rightarrow> Inl e
      | (x, None) \<Rightarrow> (case setElems f ss of Inl e \<Rightarrow> Inl e | Inr xs \<Rightarrow> Inr (x # xs)))"

lemma setElems_cong [fundef_cong]:
  "ss = ss' \<Longrightarrow> (\<And>s. s \<in> set ss' \<Longrightarrow> f s = g s) \<Longrightarrow> setElems f ss = setElems g ss'"
  by (induction ss' arbitrary: ss) auto

text \<open>
  \<^verbatim>\<open>setValue\<close>. The destination is given by its type and its content, and the result
  is the content after the call together with the returned error. The case of a slice
  is the body of \<^verbatim>\<open>setSlice\<close>, which is defined after it.
\<close>

fun setValue ::
  "('f, 't) lib \<Rightarrow> confucius \<Rightarrow> gotype \<Rightarrow> ('f, 't) data \<Rightarrow> string \<Rightarrow> ('f, 't) data \<times> error option"
where
  "setValue L c (TPtr t) d val =
     (let p = (case d of DPtr (Some x) \<Rightarrow> x | _ \<Rightarrow> zero L t)
      in case setValue L c t p val of (p', e) \<Rightarrow> (DPtr (Some p'), e))"
| "setValue L c (TSlice t) d val =
     (case setElems (\<lambda>s. setValue L c t (zero L t) s) (stringSlice L val) of
        Inl e \<Rightarrow> (d, Some e)
      | Inr xs \<Rightarrow> (DSlice xs, None))"
| "setValue L c TBool d val =
     (case ParseBool val of Inl e \<Rightarrow> (d, Some e) | Inr b \<Rightarrow> (DBool b, None))"
| "setValue L c TDuration d val =
     (case ParseDuration L val of Inl e \<Rightarrow> (d, Some e) | Inr n \<Rightarrow> (DInt n, None))"
| "setValue L c (TInt w) d val =
     (case ParseInt val of Inl e \<Rightarrow> (d, Some e) | Inr i \<Rightarrow> (DInt (wrapInt (bits w) i), None))"
| "setValue L c (TUint w) d val =
     (case ParseUint val of Inl e \<Rightarrow> (d, Some e) | Inr i \<Rightarrow> (DUint (wrapUint (bits w) i), None))"
| "setValue L c TFloat32 d val =
     (case ParseFloat L val of Inl e \<Rightarrow> (d, Some e) | Inr f \<Rightarrow> (DFloat (toFloat32 L f), None))"
| "setValue L c TFloat64 d val =
     (case ParseFloat L val of Inl e \<Rightarrow> (d, Some e) | Inr f \<Rightarrow> (DFloat f, None))"
| "setValue L c TString d val = (DString val, None)"
| "setValue L c TTime d val =
     (case ParseTime L (timeLayout c) val of Inl e \<Rightarrow> (d, Some e) | Inr t \<Rightarrow> (DTime t, None))"
| "setValue L c TStruct d val = (d, Some (Errorf (''unsupported type '' @ kindString KStruct)))"
| "setValue L c (TOther k) d val = (d, Some (Errorf (''unsupported type '' @ kindString k)))"

text \<open>\<^verbatim>\<open>setSlice\<close>, on a destination whose elements have type \<open>t\<close>.\<close>

definition setSlice ::
  "('f, 't) lib \<Rightarrow> confucius \<Rightarrow> gotype \<Rightarrow> ('f, 't) data \<Rightarrow> string \<Rightarrow> ('f, 't) data \<times> error option"
where
  "setSlice L c t sv val =
     (let ss = stringSlice L val
      in case setElems (\<lambda>s. setValue L c t (zero L t) s) ss of
           Inl e \<Rightarrow> (sv, Some e)
         | Inr slice \<Rightarrow> (DSlice slice, None))"

text \<open>\<^verbatim>\<open>setDefaultValue\<close>: \<^verbatim>\<open>setValue\<close>, but not for a boolean.\<close>

definition setDefaultValue ::
  "('f, 't) lib \<Rightarrow> confucius \<Rightarrow> gotype \<Rightarrow> ('f, 't) data \<Rightarrow> string \<Rightarrow> ('f, 't) data \<times> error option"
where
  "setDefaultValue L c t d val =
     (if kindOf t = KBool then (d, Some (Errorf (''unsupported type: '' @ kindString (kindOf t))))
      else setValue L c t d val)"

section \<open>Strings\<close>

text \<open>
  The functions of Go's \<^verbatim>\<open>strings\<close> package that the loader calls, on strings as
  byte lists. With an empty separator or an empty \<open>old\<close> Go works rune by rune; the model
  does so byte by byte, and no call of the loader passes an empty one.
\<close>

definition HasPrefix :: "string \<Rightarrow> string \<Rightarrow> bool" where
  "HasPrefix s p = (take (length p) s = p)"

fun Index :: "string \<Rightarrow> string \<Rightarrow> nat option" where
  "Index [] sep = (if sep = [] then Some 0 else None)"
| "Index (c # cs) sep =
     (if HasPrefix (c # cs) sep then Some 0 else map_option Suc (Index cs sep))"

lemma Index_bound: "Index s sep = Some i \<Longrightarrow> i + length sep \<le> length s"
proof (induction s arbitrary: i)
  case Nil
  then show ?case by (simp split: if_splits)
next
  case (Cons c cs)
  show ?case
  proof (cases "HasPrefix (c # cs) sep")
    case True
    then have "length sep = min (length (c # cs)) (length sep)"
      unfolding HasPrefix_def by (metis length_take)
    then have "length sep \<le> length (c # cs)" by linarith
    with True Cons.prems show ?thesis by simp
  next
    case False
    with Cons.prems obtain j where "Index cs sep = Some j" "i = Suc j" by auto
    with Cons.IH show ?thesis by simp
  qed
qed

function Split :: "string \<Rightarrow> string \<Rightarrow> string list" where
  "Split s sep =
     (if sep = [] then map (\<lambda>c. [c]) s
      else case Index s sep of
             None \<Rightarrow> [s]
           | Some i \<Rightarrow> take i s # Split (drop (i + length sep) s) sep)"
  by pat_completeness auto
termination
proof (relation "measure (\<lambda>(s, sep). length s)")
  show "wf (measure (\<lambda>(s, sep). length s))" by simp
next
  fix s sep :: string and i
  assume "sep \<noteq> []" and "Index s sep = Some i"
  then have "0 < i + length sep" and "i + length sep \<le> length s"
    by (simp_all add: Index_bound)
  then have "length s - (i + length sep) < length s" by arith
  then show "((drop (i + length sep) s, sep), (s, sep)) \<in> measure (\<lambda>(s, sep). length s)"
    by simp
qed

declare Split.simps [simp del]

function ReplaceAll :: "string \<Rightarrow> string \<Rightarrow> string \<Rightarrow> string" where
  "ReplaceAll s old new =
     (if old = [] then new @ concat (map (\<lambda>c. c # new) s)
      else if s = [] then []
      else if HasPrefix s old then new @ ReplaceAll (drop (length old) s) old new
      else hd s # ReplaceAll (tl s) old new)"
  by pat_completeness auto
termination
  by (relation "measure (\<lambda>(s, old, new). length s)") auto

declare ReplaceAll.simps [simp del]

text \<open>
  \<^verbatim>\<open>strings.NewReplacer(...).Replace\<close> for old strings of one byte each: every byte is
  replaced by the new string of the first pair that names it.
\<close>

definition byteReplace :: "(char \<times> string) list \<Rightarrow> string \<Rightarrow> string" where
  "byteReplace pairs s =
     concat (map (\<lambda>c. case map_of pairs c of Some r \<Rightarrow> r | None \<Rightarrow> [c]) s)"

definition upperByte :: "char \<Rightarrow> char" where
  "upperByte c =
     (if 97 \<le> (of_char c :: nat) \<and> (of_char c :: nat) \<le> 122
      then char_of ((of_char c :: nat) - 32) else c)"

definition isASCII :: "string \<Rightarrow> bool" where
  "isASCII s = list_all (\<lambda>c. (of_char c :: nat) < 128) s"

definition ToUpper :: "('f, 't) lib \<Rightarrow> string \<Rightarrow> string" where
  "ToUpper L s = (if isASCII s then map upperByte s else unicodeToUpper L s)"

text \<open>\<^verbatim>\<open>filepath.Ext\<close>: the suffix of the last path element from its last dot on.\<close>

definition Ext :: "string \<Rightarrow> string" where
  "Ext p =
     (let base = rev (takeWhile (\<lambda>c. c \<noteq> CHR ''/'') (rev p))
      in if CHR ''.'' \<in> set base
         then CHR ''.'' # rev (takeWhile (\<lambda>c. c \<noteq> CHR ''.'') (rev base))
         else [])"

section \<open>The policy resolver\<close>

text \<open>
  A leaf of the configuration as \<^verbatim>\<open>flattenCfg\<close> hands it to \<^verbatim>\<open>processCfg\<close>:
  the result of \<^verbatim>\<open>field.path()\<close>, the three tag fields that \<^verbatim>\<open>processField\<close>
  reads, and the destination \<^verbatim>\<open>field.v\<close> as its type \<open>ft\<close> and its content \<open>fv\<close>.
  Each leaf has storage of its own.
\<close>

record ('f, 't) field =
  path :: string
  required :: bool
  setDefault :: bool
  defaultVal :: string
  ft :: gotype
  fv :: "('f, 't) data"

text \<open>The process environment, read by \<^verbatim>\<open>os.LookupEnv\<close>.\<close>

type_synonym environ = "string \<Rightarrow> string option"

definition formatEnvKey :: "('f, 't) lib \<Rightarrow> confucius \<Rightarrow> string \<Rightarrow> string" where
  "formatEnvKey L c key =
     (let key1 = byteReplace [(CHR ''.'', ''_''), (CHR ''['', ''_''), (CHR '']'', [])] key;
          key2 = (if envPrefix c \<noteq> [] then envPrefix c @ ''_'' @ key1 else key1)
      in ToUpper L key2)"

definition setFromEnv ::
  "('f, 't) lib \<Rightarrow> environ \<Rightarrow> confucius \<Rightarrow> gotype \<Rightarrow> ('f, 't) data \<Rightarrow> string
     \<Rightarrow> ('f, 't) data \<times> error option"
where
  "setFromEnv L env c t d key =
     (case env (formatEnvKey L c key) of
        Some val \<Rightarrow> setValue L c t d val
      | None \<Rightarrow> (d, None))"

text \<open>\<^verbatim>\<open>processField\<close>: the leaf after the call and the returned error.\<close>

definition processField ::
  "('f, 't) lib \<Rightarrow> environ \<Rightarrow> confucius \<Rightarrow> ('f, 't) field \<Rightarrow> ('f, 't) field \<times> error option"
where
  "processField L env c f =
     (if required f \<and> setDefault f
      then (f, Some (Errorf ''field cannot have both a required validation and a default value''))
      else
        case (if useEnv c then setFromEnv L env c (ft f) (fv f) (path f) else (fv f, None)) of
          (v1, Some err) \<Rightarrow> (f\<lparr>fv := v1\<rparr>, Some (Wrapf ''unable to set from env: '' err []))
        | (v1, None) \<Rightarrow>
            if required f \<and> isZero L (ft f) v1
            then (f\<lparr>fv := v1\<rparr>, Some (Errorf ''required validation failed''))
            else if setDefault f \<and> isZero L (ft f) v1
            then (case setDefaultValue L c (ft f) v1 (defaultVal f) of
                    (v2, Some err) \<Rightarrow>
                      (f\<lparr>fv := v2\<rparr>, Some (Wrapf ''unable to set default: '' err []))
                  | (v2, None) \<Rightarrow> (f\<lparr>fv := v2\<rparr>, None))
            else (f\<lparr>fv := v1\<rparr>, None))"

text \<open>
  The loop of \<^verbatim>\<open>processCfg\<close> over the leaves, with the \<^verbatim>\<open>fieldErrors\<close> map as an
  association list, and \<^verbatim>\<open>processCfg\<close> on the list of leaves that \<^verbatim>\<open>flattenCfg\<close>
  returned.
\<close>

fun processFields ::
  "('f, 't) lib \<Rightarrow> environ \<Rightarrow> confucius \<Rightarrow> ('f, 't) field list \<Rightarrow> (string \<times> error) list
     \<Rightarrow> ('f, 't) field list \<times> (string \<times> error) list"
where
  "processFields L env c [] errs = ([], errs)"
| "processFields L env c (f # fs) errs =
     (case processField L env c f of
        (f', e) \<Rightarrow>
          (case processFields L env c fs
                  (case e of Some err \<Rightarrow> AList.update (path f) err errs | None \<Rightarrow> errs) of
             (fs', errs') \<Rightarrow> (f' # fs', errs')))"

definition processCfg ::
  "('f, 't) lib \<Rightarrow> environ \<Rightarrow> confucius \<Rightarrow> ('f, 't) field list
     \<Rightarrow> ('f, 't) field list \<times> error option"
where
  "processCfg L env c fs =
     (case processFields L env c fs [] of
        (fs', errs) \<Rightarrow> (fs', if 0 < length errs then Some (FieldErrors errs) else None))"

section \<open>Substitution of environment variables\<close>

text \<open>
  \<^verbatim>\<open>regexp.MustCompile(`\$\{(.*?|)\}`).FindAllStringSubmatch(str, -1)\<close>: the matches
  from left to right, none overlapping another, each as the pair of the whole match and
  of its group. A match starts at \<^verbatim>\<open>${\<close>; its group is the shortest run of characters
  other than the newline that a \<^verbatim>\<open>}\<close> follows. \<open>scanGroup\<close> reads the group off the
  text after \<^verbatim>\<open>${\<close> and returns it with the text after the closing brace.
\<close>

fun scanGroup :: "string \<Rightarrow> (string \<times> string) option" where
  "scanGroup [] = None"
| "scanGroup (c # cs) =
     (if c = CHR ''}'' then Some ([], cs)
      else if c = CHR 0x0A then None
      else map_option (\<lambda>(g, r). (c # g, r)) (scanGroup cs))"

lemma scanGroup_shorter: "scanGroup s = Some (g, r) \<Longrightarrow> length r < length s"
  by (induction s arbitrary: g) (auto split: if_splits)

function FindAllStringSubmatch :: "string \<Rightarrow> (string \<times> string) list" where
  "FindAllStringSubmatch [] = []"
| "FindAllStringSubmatch (c # cs) =
     (if c = CHR ''$'' \<and> cs \<noteq> [] \<and> hd cs = CHR ''{''
      then (case scanGroup (tl cs) of
              Some (g, r) \<Rightarrow> (''${'' @ g @ ''}'', g) # FindAllStringSubmatch r
            | None \<Rightarrow> FindAllStringSubmatch cs)
      else FindAllStringSubmatch cs)"
  by pat_completeness auto
termination
proof (relation "measure length")
  fix c :: char and cs y :: string and x2 x
  assume "c = CHR ''$'' \<and> cs \<noteq> [] \<and> hd cs = CHR ''{''"
    and "scanGroup (tl cs) = Some x2" and "(x, y) = x2"
  then have "length y < length (tl cs)"
    by (metis scanGroup_shorter)
  then show "(y, c # cs) \<in> measure length" by simp
qed simp_all

text \<open>The loop of \<^verbatim>\<open>replaceEnvironments\<close> over the matches, and the function.\<close>

fun replaceLoop :: "environ \<Rightarrow> string \<Rightarrow> (string \<times> string) list \<Rightarrow> string \<times> error option" where
  "replaceLoop env result [] = (result, None)"
| "replaceLoop env result ((whole, val) # ms) =
     (if val = [] then (result, Some (Errorf ''environment name is missing''))
      else
        let s = Split val '':''; envName = s ! 0
        in case env envName of
             Some envValue \<Rightarrow> replaceLoop env (ReplaceAll result whole envValue) ms
           | None \<Rightarrow>
               replaceLoop env
                 (ReplaceAll result whole (if 1 < length s then s ! 1 else [])) ms)"

definition replaceEnvironments :: "environ \<Rightarrow> string \<Rightarrow> string \<times> error option" where
  "replaceEnvironments env str = replaceLoop env str (FindAllStringSubmatch str)"

section \<open>The load orchestrator\<close>

text \<open>A call either returns or stops the program with a run-time panic.\<close>

datatype 'a outcome = Panic | Returned 'a

text \<open>
  \<^verbatim>\<open>profileFileName\<close>. \<^verbatim>\<open>strings.Split\<close> returns at least one part, and the read of
  \<^verbatim>\<open>parts[1]\<close> panics when there is no second one.
\<close>

definition profileFileName :: "confucius \<Rightarrow> string \<Rightarrow> string outcome" where
  "profileFileName c profile =
     (let parts = Split (filename c) ''.'';
          filename1 = ReplaceAll (profileLayout c) ''config'' (parts ! 0);
          filename2 = ReplaceAll filename1 ''test'' profile
      in if length parts \<le> 1 then Panic
         else Returned (ReplaceAll filename2 ''yaml'' (parts ! 1)))"

text \<open>
  What \<^verbatim>\<open>Load\<close> calls outside \<^verbatim>\<open>confucius.go\<close>: \<^verbatim>\<open>isStructPtr\<close>,
  \<^verbatim>\<open>fileExists\<close> and \<^verbatim>\<open>flattenCfg\<close> of the package's other files,
  \<^verbatim>\<open>filepath.Join\<close>, \<^verbatim>\<open>os.Open\<close> (giving the file's content), the three decoders,
  \<^verbatim>\<open>mergo.Merge\<close> with its two options (destination first, giving the merged
  destination), the nil map and the decoder of \<^verbatim>\<open>mapstructure\<close> that \<^verbatim>\<open>decodeMap\<close>
  runs (it reads the environment through the substitution hook).
\<close>

record ('cfg, 'tree, 'f, 't) world =
  isStructPtr :: "'cfg \<Rightarrow> bool"
  fileExists :: "string \<Rightarrow> bool"
  joinPath :: "string \<Rightarrow> string \<Rightarrow> string"
  openFile :: "string \<Rightarrow> error + string"
  decodeYAML :: "string \<Rightarrow> error + 'tree"
  decodeJSON :: "string \<Rightarrow> error + 'tree"
  decodeTOML :: "string \<Rightarrow> error + 'tree"
  merge :: "'tree \<Rightarrow> 'tree \<Rightarrow> error + 'tree"
  nilMap :: "'tree"
  decodeMap :: "environ \<Rightarrow> confucius \<Rightarrow> 'tree \<Rightarrow> 'cfg \<Rightarrow> error + 'cfg"
  flattenCfg :: "'cfg \<Rightarrow> string \<Rightarrow> ('f, 't) field list"

text \<open>The loop shared by \<^verbatim>\<open>findCfgFile\<close> and \<^verbatim>\<open>findProfileCfgFile\<close>.\<close>

fun findIn :: "('cfg, 'tree, 'f, 't) world \<Rightarrow> string list \<Rightarrow> string \<Rightarrow> error + string" where
  "findIn W [] file = Inl (Wrapf (file @ '': '') ErrFileNotFound [])"
| "findIn W (dir # ds) file =
     (if fileExists W (joinPath W dir file) then Inr (joinPath W dir file)
      else findIn W ds file)"

definition findCfgFile :: "('cfg, 'tree, 'f, 't) world \<Rightarrow> confucius \<Rightarrow> error + string" where
  "findCfgFile W c = findIn W (dirs c) (filename c)"

definition findProfileCfgFile ::
  "('cfg, 'tree, 'f, 't) world \<Rightarrow> confucius \<Rightarrow> string \<Rightarrow> (error + string) outcome"
where
  "findProfileCfgFile W c profile =
     (case profileFileName c profile of
        Panic \<Rightarrow> Panic
      | Returned file \<Rightarrow> Returned (findIn W (dirs c) file))"

definition decodeReader ::
  "('cfg, 'tree, 'f, 't) world \<Rightarrow> confucius \<Rightarrow> string \<Rightarrow> string \<Rightarrow> error + 'tree"
where
  "decodeReader W c reader decoder =
     (if decoder = ''.yaml'' \<or> decoder = ''.yml'' then decodeYAML W reader
      else if decoder = ''.json'' then decodeJSON W reader
      else if decoder = ''.toml'' then decodeTOML W reader
      else Inl (Errorf (''unsupported file extension '' @ Ext (filename c))))"

definition decodeFile ::
  "('cfg, 'tree, 'f, 't) world \<Rightarrow> confucius \<Rightarrow> string \<Rightarrow> error + 'tree"
where
  "decodeFile W c file =
     (case openFile W file of
        Inl err \<Rightarrow> Inl err
      | Inr fd \<Rightarrow> decodeReader W c fd (Ext file))"

text \<open>The loop of \<^verbatim>\<open>Load\<close> over the profiles.\<close>

fun loadProfiles ::
  "('cfg, 'tree, 'f, 't) world \<Rightarrow> confucius \<Rightarrow> string list \<Rightarrow> 'tree \<Rightarrow> (error + 'tree) outcome"
where
  "loadProfiles W c [] vals = Returned (Inr vals)"
| "loadProfiles W c (profile # ps) vals =
     (case findProfileCfgFile W c profile of
        Panic \<Rightarrow> Panic
      | Returned (Inl err) \<Rightarrow> Returned (Inl err)
      | Returned (Inr profileFile) \<Rightarrow>
          (case decodeFile W c profileFile of
             Inl err \<Rightarrow> Returned (Inl (Wrapf [] err ('', filename: '' @ profileFile)))
           | Inr profileVals \<Rightarrow>
               (case merge W vals profileVals of
                  Inl err \<Rightarrow> Returned (Inl err)
                | Inr vals' \<Rightarrow> loadProfiles W c ps vals')))"

text \<open>
  How a call of \<^verbatim>\<open>Load\<close> ends: with a panic, with an error returned before
  \<^verbatim>\<open>processCfg\<close> ran, or with the decoded record, its leaves after \<^verbatim>\<open>processCfg\<close>
  and the error that \<^verbatim>\<open>processCfg\<close> returned.
\<close>

datatype ('cfg, 'f, 't) loaded =
    Panicked
  | Failed error
  | Processed 'cfg "('f, 't) field list" "error option"

text \<open>
  The part of \<^verbatim>\<open>Load\<close> from the profiles on, given the values merged so far, and
  \<^verbatim>\<open>Load\<close>. On failure \<^verbatim>\<open>findCfgFile\<close> returns the empty path and
  \<^verbatim>\<open>decodeFile\<close> the nil map.
\<close>

definition loadFrom ::
  "('cfg, 'tree, 'f, 't) world \<Rightarrow> ('f, 't) lib \<Rightarrow> environ \<Rightarrow> confucius \<Rightarrow> 'cfg \<Rightarrow> 'tree
     \<Rightarrow> ('cfg, 'f, 't) loaded"
where
  "loadFrom W L env c cfg vals =
     (case loadProfiles W c (profiles c) vals of
        Panic \<Rightarrow> Panicked
      | Returned (Inl err) \<Rightarrow> Failed err
      | Returned (Inr vals') \<Rightarrow>
          (case decodeMap W env c vals' cfg of
             Inl err \<Rightarrow> Failed err
           | Inr cfg' \<Rightarrow>
               (case processCfg L env c (flattenCfg W cfg' (tag c)) of
                  (fs, err) \<Rightarrow> Processed cfg' fs err)))"

definition Load ::
  "('cfg, 'tree, 'f, 't) world \<Rightarrow> ('f, 't) lib \<Rightarrow> environ \<Rightarrow> confucius \<Rightarrow> 'cfg
     \<Rightarrow> ('cfg, 'f, 't) loaded"
where
  "Load W L env c cfg =
     (if \<not> isStructPtr W cfg then Failed (Errorf ''cfg must be a pointer to a struct'')
      else
        let found = findCfgFile W c
        in if \<not> useReader c \<and> isl found then Failed (projl found)
           else
             let decoded = decodeFile W c (case found of Inr file \<Rightarrow> file | Inl err \<Rightarrow> [])
             in if \<not> useReader c \<and> isl decoded then Failed (projl decoded)
                else
                  let vals = (case decoded of Inr v \<Rightarrow> v | Inl err \<Rightarrow> nilMap W)
                  in if useReader c
                     then (case decodeReader W c (readerConfig c) (readerDecoder c) of
                             Inl err \<Rightarrow> Failed err
                           | Inr readerVals \<Rightarrow>
                               (case merge W readerVals vals of
                                  Inl err \<Rightarrow> Failed err
                                | Inr vals' \<Rightarrow> loadFrom W L env c cfg vals'))
                     else loadFrom W L env c cfg vals)"

section \<open>Notions used by the statements\<close>

text \<open>
  A destination after a failed \<^verbatim>\<open>setValue\<close>: every nil pointer on the chain of
  pointers from the destination has been replaced by a pointer to a fresh zero value.
  \<open>noNil\<close> holds when that chain has no nil pointer.
\<close>

fun allocated :: "('f, 't) lib \<Rightarrow> gotype \<Rightarrow> ('f, 't) data \<Rightarrow> ('f, 't) data" where
  "allocated L (TPtr t) d =
     DPtr (Some (allocated L t (case d of DPtr (Some x) \<Rightarrow> x | _ \<Rightarrow> zero L t)))"
| "allocated L t d = d"

fun noNil :: "gotype \<Rightarrow> ('f, 't) data \<Rightarrow> bool" where
  "noNil (TPtr t) d = (case d of DPtr (Some x) \<Rightarrow> noNil t x | _ \<Rightarrow> False)"
| "noNil t d = True"

text \<open>
  The rule of the path formatter in the spec's words, to compare \<^verbatim>\<open>formatEnvKey\<close>
  with: every \<^verbatim>\<open>.\<close> and \<^verbatim>\<open>[\<close> becomes \<^verbatim>\<open>_\<close>, every \<^verbatim>\<open>]\<close> is deleted, a
  non-empty prefix is joined in front by \<^verbatim>\<open>_\<close>, and the whole is in upper case.
\<close>

definition formatEnvKeySpec :: "('f, 't) lib \<Rightarrow> string \<Rightarrow> string \<Rightarrow> string" where
  "formatEnvKeySpec L prefix key =
     ToUpper L
       ((if prefix = [] then [] else prefix @ ''_'') @
        map (\<lambda>c. if c = CHR ''.'' \<or> c = CHR ''['' then CHR ''_'' else c)
          (filter (\<lambda>c. c \<noteq> CHR '']'') key))"

text \<open>
  The environment overlay of \<^verbatim>\<open>processField\<close> on a leaf: the content that the
  overlay leaves and its error.
\<close>

definition overlay ::
  "('f, 't) lib \<Rightarrow> environ \<Rightarrow> confucius \<Rightarrow> ('f, 't) field \<Rightarrow> ('f, 't) data \<times> error option"
where
  "overlay L env c f =
     (if useEnv c then setFromEnv L env c (ft f) (fv f) (path f) else (fv f, None))"

text \<open>
  The values of the primary file as \<^verbatim>\<open>Load\<close> holds them after its first two steps
  when their errors are not returned, and the rest of \<^verbatim>\<open>Load\<close> in reader mode given
  those values.
\<close>

definition primaryVals :: "('cfg, 'tree, 'f, 't) world \<Rightarrow> confucius \<Rightarrow> 'tree" where
  "primaryVals W c =
     (case decodeFile W c (case findCfgFile W c of Inr file \<Rightarrow> file | Inl err \<Rightarrow> []) of
        Inr v \<Rightarrow> v
      | Inl err \<Rightarrow> nilMap W)"









section \<open>Instances for the examples\<close>

text \<open>
  Modelled from the spec: \<^verbatim>\<open>stringSlice\<close>, which is not in \<^verbatim>\<open>confucius.go\<close>.
  The spec's grammar of a sequence literal: optional enclosing brackets, elements
  separated by commas, each element trimmed of surrounding white space.
\<close>

definition isSpace :: "char \<Rightarrow> bool" where
  "isSpace c = (c = CHR '' '' \<or> (9 \<le> (of_char c :: nat) \<and> (of_char c :: nat) \<le> 13))"

definition trimSpace :: "string \<Rightarrow> string" where
  "trimSpace s = rev (dropWhile isSpace (rev (dropWhile isSpace s)))"

definition stringSliceSpec :: "string \<Rightarrow> string list" where
  "stringSliceSpec s =
     (let s1 = (if HasPrefix s ''['' then drop 1 s else s);
          s2 = (if s1 \<noteq> [] \<and> last s1 = CHR '']'' then butlast s1 else s1)
      in map trimSpace (Split s2 '',''))"

text \<open>
  Modelled from the spec: \<^verbatim>\<open>isZero\<close>, which is not in \<^verbatim>\<open>confucius.go\<close>. The
  spec's rule of when a leaf counts as not set: a number that is \<open>0\<close>, the empty
  string, a sequence of length \<open>0\<close>, a nil pointer or a pointer to such a value, the zero
  instant; a boolean that is false; a struct of another type is always set.
\<close>

fun isZeroSpec :: "'f \<Rightarrow> 't \<Rightarrow> gotype \<Rightarrow> ('f, 't) data \<Rightarrow> bool" where
  "isZeroSpec fz tz (TPtr t) d =
     (case d of DPtr (Some x) \<Rightarrow> isZeroSpec fz tz t x | _ \<Rightarrow> True)"
| "isZeroSpec fz tz (TSlice t) d = (case d of DSlice xs \<Rightarrow> xs = [] | _ \<Rightarrow> True)"
| "isZeroSpec fz tz TBool d = (d = DBool False)"
| "isZeroSpec fz tz (TInt w) d = (d = DInt 0)"
| "isZeroSpec fz tz TDuration d = (d = DInt 0)"
| "isZeroSpec fz tz (TUint w) d = (d = DUint 0)"
| "isZeroSpec fz tz TFloat32 d = (d = DFloat fz)"
| "isZeroSpec fz tz TFloat64 d = (d = DFloat fz)"
| "isZeroSpec fz tz TString d = (d = DString [])"
| "isZeroSpec fz tz TTime d = (d = DTime tz)"
| "isZeroSpec fz tz TStruct d = False"
| "isZeroSpec fz tz (TOther k) d = (k = KInvalid)"

text \<open>
  The collaborators of the examples. No example reaches a floating-point number, a
  duration, an instant or a string that is not ASCII: the four functions of Go's
  library return an error, respectively their argument.
\<close>

definition exampleLib :: "(unit, unit) lib" where
  "exampleLib =
     \<lparr> ParseFloat = (\<lambda>s. Inl (LibError ''strconv.ParseFloat'')),
       toFloat32 = (\<lambda>f. f),
       ParseDuration = (\<lambda>s. Inl (LibError ''time.ParseDuration'')),
       ParseTime = (\<lambda>layout s. Inl (LibError ''time.Parse'')),
       floatZero = (),
       timeZero = (),
       unicodeToUpper = (\<lambda>s. s),
       stringSlice = stringSliceSpec,
       isZero = isZeroSpec () () \<rparr>"

text \<open>
  The world of the examples: the destination is a struct pointer and is given by its list
  of leaves, which the typed decode leaves as they are; no file exists; a tree is the text
  it was decoded from and merging appends the source to the destination.
\<close>

definition exampleWorld ::
  "((unit, unit) field list, string, unit, unit) world"
where
  "exampleWorld =
     \<lparr> isStructPtr = (\<lambda>cfg. True),
       fileExists = (\<lambda>p. False),
       joinPath = (\<lambda>dir file. dir @ ''/'' @ file),
       openFile = (\<lambda>p. Inl (LibError ''open: no such file or directory'')),
       decodeYAML = (\<lambda>r. Inr r),
       decodeJSON = (\<lambda>r. Inr r),
       decodeTOML = (\<lambda>r. Inr r),
       merge = (\<lambda>dst src. Inr (dst @ src)),
       nilMap = [],
       decodeMap = (\<lambda>env c vals cfg. Inr cfg),
       flattenCfg = (\<lambda>cfg tg. cfg) \<rparr>"

text \<open>An environment given by a list of bindings.\<close>

definition environOf :: "(string \<times> string) list \<Rightarrow> environ" where
  "environOf bs = map_of bs"

text \<open>A leaf of the examples.\<close>

definition leaf ::
  "string \<Rightarrow> bool \<Rightarrow> bool \<Rightarrow> string \<Rightarrow> gotype \<Rightarrow> (unit, unit) data \<Rightarrow> (unit, unit) field"
where
  "leaf p r sd dv t d =
     \<lparr> path = p, required = r, setDefault = sd, defaultVal = dv, ft = t, fv = d \<rparr>"

text \<open>
  The configuration of the examples, as \<^verbatim>\<open>UseEnv("")\<close> and
  \<^verbatim>\<open>String("x: 1", DecoderYaml)\<close> set it.
\<close>

definition exampleConfucius :: confucius where
  "exampleConfucius =
     defaultConfucius\<lparr>useEnv := True, useReader := True, readerConfig := ''x: 1'',
       readerDecoder := ''.yaml''\<rparr>"

section \<open>Value coercion: what a failure leaves behind\<close>

lemmas strconv_defs = ParseInt_def ParseUint_def isDigit_def digitVal_def maxUint64_def

lemma setValue_error_allocated:
  "snd (setValue L c t d val) \<noteq> None \<Longrightarrow> fst (setValue L c t d val) = allocated L t d"
proof (induction t arbitrary: d)
  case (TPtr t)
  let ?p = "case d of DPtr (Some x) \<Rightarrow> x | _ \<Rightarrow> zero L t"
  obtain p' e where r: "setValue L c t ?p val = (p', e)"
    by (cases "setValue L c t ?p val")
  with TPtr.prems have "e \<noteq> None" by (simp add: Let_def)
  with TPtr.IH [of ?p] r have "p' = allocated L t ?p" by simp
  with r show ?case by (simp add: Let_def)
qed (auto split: sum.splits)

lemma allocated_noNil: "noNil t d \<Longrightarrow> allocated L t d = d"
  by (induction t arbitrary: d) (auto split: data.splits option.splits)

lemma setValue_slice: "setValue L c (TSlice t) d val = setSlice L c t d val"
  by (simp add: setSlice_def)

lemma ParseUint_minus5: "ParseUint ''-5'' = Inl (NumError ''ParseUint'' ''-5'' ErrSyntax)"
  by (simp add: strconv_defs)

lemma stringSlice_ex: "stringSliceSpec ''[1,-5]'' = [''1'', ''-5'']"
  by (simp add: stringSliceSpec_def Split.simps HasPrefix_def trimSpace_def isSpace_def)

text \<open>
  C1, as amended. If \<^verbatim>\<open>setValue\<close> returns an error, the destination holds its prior
  value except that the nil pointers on its chain of pointers have been allocated; so a
  destination whose chain has no nil pointer keeps its prior value. Coercing
  \<^verbatim>\<open>"-5"\<close> into an unsigned integer of any width fails and leaves the prior value;
  a failing \<^verbatim>\<open>setSlice\<close> leaves the whole sequence as it was; a failing coercion
  through a nil pointer leaves the pointer allocated.
\<close>

theorem setValue_failure_keeps_value:
  "(snd (setValue L c t d val) \<noteq> None \<longrightarrow> fst (setValue L c t d val) = allocated L t d)
   \<and> (noNil t d \<longrightarrow> allocated L t d = d)
   \<and> setValue L c (TUint w) d ''-5'' = (d, Some (NumError ''ParseUint'' ''-5'' ErrSyntax))
   \<and> (snd (setSlice L c t d val) \<noteq> None \<longrightarrow> fst (setSlice L c t d val) = d)
   \<and> (snd (setValue L c (TPtr t) (DPtr None) val) \<noteq> None \<longrightarrow>
        fst (setValue L c (TPtr t) (DPtr None) val) = DPtr (Some (allocated L t (zero L t))))"
proof (intro conjI impI)
  show "setValue L c (TUint w) d ''-5'' = (d, Some (NumError ''ParseUint'' ''-5'' ErrSyntax))"
    by (simp add: ParseUint_minus5)
next
  assume "snd (setSlice L c t d val) \<noteq> None"
  then show "fst (setSlice L c t d val) = d"
    by (auto simp: setSlice_def split: sum.splits)
next
  assume "snd (setValue L c (TPtr t) (DPtr None) val) \<noteq> None"
  then show "fst (setValue L c (TPtr t) (DPtr None) val) = DPtr (Some (allocated L t (zero L t)))"
    using setValue_error_allocated [of L c "TPtr t" "DPtr None" val] by simp
qed (simp_all add: setValue_error_allocated allocated_noNil)

theorem setValue_failure_keeps_value_witness:
  "snd (setValue exampleLib defaultConfucius (TPtr (TUint W8)) (DPtr (Some (DUint 7))) ''-5'') \<noteq> None
   \<and> fst (setValue exampleLib defaultConfucius (TPtr (TUint W8)) (DPtr (Some (DUint 7))) ''-5'')
       = DPtr (Some (DUint 7))
   \<and> snd (setSlice exampleLib defaultConfucius (TUint W0) (DSlice [DUint 3]) ''[1,-5]'') \<noteq> None
   \<and> fst (setSlice exampleLib defaultConfucius (TUint W0) (DSlice [DUint 3]) ''[1,-5]'')
       = DSlice [DUint 3]
   \<and> fst (setValue exampleLib defaultConfucius (TPtr (TUint W0)) (DPtr None) ''-5'')
       = DPtr (Some (DUint 0))"
  (is "?e1 \<and> ?a \<and> ?e2 \<and> ?b \<and> ?c")
proof -
  have s: "stringSlice exampleLib ''[1,-5]'' = [''1'', ''-5'']"
    by (simp add: exampleLib_def stringSlice_ex)
  have e1: ?e1 by (simp add: ParseUint_minus5)
  have e2: ?e2 by (simp add: setSlice_def s strconv_defs wrapUint_def)
  have e3: "snd (setValue exampleLib defaultConfucius (TPtr (TUint W0)) (DPtr None) ''-5'') \<noteq> None"
    by (simp add: ParseUint_minus5)
  note T1 = setValue_failure_keeps_value [of exampleLib defaultConfucius "TPtr (TUint W8)"
        "DPtr (Some (DUint 7))" "''-5''" W8]
  note T2 = setValue_failure_keeps_value [of exampleLib defaultConfucius "TUint W0"
        "DSlice [DUint 3]" "''[1,-5]''" W8]
  note T3 = setValue_failure_keeps_value [of exampleLib defaultConfucius "TUint W0"
        "DPtr None" "''-5''" W8]
  have n: "noNil (TPtr (TUint W8)) (DPtr (Some (DUint 7)) :: (unit, unit) data)" by simp
  from T1 e1 n have a: ?a by metis
  from T2 e2 have b: ?b by metis
  have z: "allocated exampleLib (TUint W0) (zero exampleLib (TUint W0)) = DUint 0" by simp
  from T3 e3 have "fst (setValue exampleLib defaultConfucius (TPtr (TUint W0)) (DPtr None) ''-5'')
      = DPtr (Some (allocated exampleLib (TUint W0) (zero exampleLib (TUint W0))))" by metis
  then have c: ?c by (simp only: z)
  from e1 a e2 b c show ?thesis by blast
qed

text \<open>
  C1 as stated fails: coercing \<^verbatim>\<open>"x"\<close> through a nil pointer to an \<^verbatim>\<open>int\<close> returns
  the error of \<^verbatim>\<open>strconv.ParseInt\<close>, and the pointer is no longer nil.
\<close>

theorem setValue_nil_pointer_counterexample:
  "setValue exampleLib defaultConfucius (TPtr (TInt W0)) (DPtr None) ''x''
     = (DPtr (Some (DInt 0)), Some (NumError ''ParseInt'' ''x'' ErrSyntax))
   \<and> DPtr (Some (DInt 0)) \<noteq> (DPtr None :: (unit, unit) data)"
  by (simp add: strconv_defs)

text \<open>
  C2. The claim says that coercing \<^verbatim>\<open>"300"\<close> into an \<^verbatim>\<open>int8\<close> yields an error.
  \<^verbatim>\<open>setValue\<close> parses with a bit size of 64 whatever the destination and
  \<^verbatim>\<open>SetInt\<close> keeps the low 8 bits: the call returns no error and stores \<open>44\<close>.
\<close>

theorem setValue_int8_300:
  "setValue L c (TInt W8) d ''300'' = (DInt 44, None)"
  by (simp add: strconv_defs wrapInt_def)

section \<open>The path formatter\<close>

lemmas upper_defs = upperByte_def char_of_def bit_Suc_0_iff

lemma byteReplace_env:
  "byteReplace [(CHR ''.'', ''_''), (CHR ''['', ''_''), (CHR '']'', [])] key
     = map (\<lambda>c. if c = CHR ''.'' \<or> c = CHR ''['' then CHR ''_'' else c)
         (filter (\<lambda>c. c \<noteq> CHR '']'') key)"
  by (induction key) (auto simp: byteReplace_def)

lemma isASCII_append: "isASCII (a @ b) = (isASCII a \<and> isASCII b)"
  by (simp add: isASCII_def)

lemma isASCII_replaced:
  "isASCII key \<Longrightarrow>
   isASCII (map (\<lambda>c. if c = CHR ''.'' \<or> c = CHR ''['' then CHR ''_'' else c)
              (filter (\<lambda>c. c \<noteq> CHR '']'') key))"
  by (induction key) (auto simp: isASCII_def)

text \<open>
  C7. \<^verbatim>\<open>formatEnvKey\<close> is the rule of the spec: every \<^verbatim>\<open>.\<close> and \<^verbatim>\<open>[\<close> replaced
  by \<^verbatim>\<open>_\<close>, every \<^verbatim>\<open>]\<close> deleted, a non-empty prefix joined in front by \<^verbatim>\<open>_\<close> and
  the whole in upper case; on ASCII input that is the prefix in upper case, \<^verbatim>\<open>_\<close>, and
  the replaced path in upper case. The path \<^verbatim>\<open>loggers[0].log_level\<close> formats to
  \<^verbatim>\<open>LOGGERS_0_LOG_LEVEL\<close> with the empty prefix and to
  \<^verbatim>\<open>MYAPP_LOGGERS_0_LOG_LEVEL\<close> with the prefix \<^verbatim>\<open>myapp\<close>.
\<close>

theorem formatEnvKey_rule:
  "formatEnvKey L c key = formatEnvKeySpec L (envPrefix c) key
   \<and> (isASCII (envPrefix c) \<and> isASCII key \<longrightarrow>
        formatEnvKey L c key =
          (if envPrefix c = [] then [] else map upperByte (envPrefix c) @ ''_'') @
          map upperByte
            (map (\<lambda>c. if c = CHR ''.'' \<or> c = CHR ''['' then CHR ''_'' else c)
               (filter (\<lambda>c. c \<noteq> CHR '']'') key)))
   \<and> formatEnvKey L (c\<lparr>envPrefix := []\<rparr>) ''loggers[0].log_level'' = ''LOGGERS_0_LOG_LEVEL''
   \<and> formatEnvKey L (c\<lparr>envPrefix := ''myapp''\<rparr>) ''loggers[0].log_level''
        = ''MYAPP_LOGGERS_0_LOG_LEVEL''"
proof (intro conjI impI)
  show "formatEnvKey L c key = formatEnvKeySpec L (envPrefix c) key"
    by (simp add: formatEnvKey_def formatEnvKeySpec_def byteReplace_env Let_def)
next
  assume "isASCII (envPrefix c) \<and> isASCII key"
  then show "formatEnvKey L c key =
          (if envPrefix c = [] then [] else map upperByte (envPrefix c) @ ''_'') @
          map upperByte
            (map (\<lambda>c. if c = CHR ''.'' \<or> c = CHR ''['' then CHR ''_'' else c)
               (filter (\<lambda>c. c \<noteq> CHR '']'') key))"
    using isASCII_replaced [of key]
    by (simp add: formatEnvKey_def byteReplace_env Let_def ToUpper_def isASCII_append)
      (simp add: isASCII_def upperByte_def)
next
  show "formatEnvKey L (c\<lparr>envPrefix := []\<rparr>) ''loggers[0].log_level'' = ''LOGGERS_0_LOG_LEVEL''"
    by (simp add: formatEnvKey_def byteReplace_def ToUpper_def isASCII_def upper_defs)
next
  show "formatEnvKey L (c\<lparr>envPrefix := ''myapp''\<rparr>) ''loggers[0].log_level''
        = ''MYAPP_LOGGERS_0_LOG_LEVEL''"
    by (simp add: formatEnvKey_def byteReplace_def ToUpper_def isASCII_def upper_defs)
qed

theorem formatEnvKey_rule_witness:
  "formatEnvKey exampleLib (defaultConfucius\<lparr>envPrefix := ''auth_s''\<rparr>) ''client.http.timeout''
     = ''AUTH_S_CLIENT_HTTP_TIMEOUT''
   \<and> formatEnvKey exampleLib defaultConfucius ''nested[1].slice[2].twice''
     = ''NESTED_1_SLICE_2_TWICE''"
proof -
  let ?c = "defaultConfucius\<lparr>envPrefix := ''auth_s''\<rparr>"
  have a: "isASCII (envPrefix ?c) \<and> isASCII ''client.http.timeout''"
    by (simp add: isASCII_def)
  have b: "isASCII (envPrefix defaultConfucius) \<and> isASCII ''nested[1].slice[2].twice''"
    by (simp add: isASCII_def defaultConfucius_def)
  from a formatEnvKey_rule [of exampleLib ?c "''client.http.timeout''"]
  have "formatEnvKey exampleLib ?c ''client.http.timeout'' =
          (if envPrefix ?c = [] then [] else map upperByte (envPrefix ?c) @ ''_'') @
          map upperByte
            (map (\<lambda>c. if c = CHR ''.'' \<or> c = CHR ''['' then CHR ''_'' else c)
               (filter (\<lambda>c. c \<noteq> CHR '']'') ''client.http.timeout''))"
    by blast
  then have x: "formatEnvKey exampleLib ?c ''client.http.timeout'' = ''AUTH_S_CLIENT_HTTP_TIMEOUT''"
    by (simp add: upper_defs)
  from b formatEnvKey_rule [of exampleLib defaultConfucius "''nested[1].slice[2].twice''"]
  have "formatEnvKey exampleLib defaultConfucius ''nested[1].slice[2].twice'' =
          (if envPrefix defaultConfucius = [] then []
           else map upperByte (envPrefix defaultConfucius) @ ''_'') @
          map upperByte
            (map (\<lambda>c. if c = CHR ''.'' \<or> c = CHR ''['' then CHR ''_'' else c)
               (filter (\<lambda>c. c \<noteq> CHR '']'') ''nested[1].slice[2].twice''))"
    by blast
  then have y: "formatEnvKey exampleLib defaultConfucius ''nested[1].slice[2].twice''
      = ''NESTED_1_SLICE_2_TWICE''"
    by (simp add: upper_defs defaultConfucius_def)
  from x y show ?thesis by blast
qed

section \<open>The policy resolver: one leaf, all leaves, the whole load\<close>

lemma processFields_Cons_fst:
  "fst (processFields L env c (g # fs) errs)
     = fst (processField L env c g)
       # fst (processFields L env c fs
                (case snd (processField L env c g) of
                   Some err \<Rightarrow> AList.update (path g) err errs | None \<Rightarrow> errs))"
  by (simp add: case_prod_beta)

lemma processFields_Cons_snd:
  "snd (processFields L env c (g # fs) errs)
     = snd (processFields L env c fs
              (case snd (processField L env c g) of
                 Some err \<Rightarrow> AList.update (path g) err errs | None \<Rightarrow> errs))"
  by (simp add: case_prod_beta)

lemma processFields_fst:
  "fst (processFields L env c fs errs) = map (\<lambda>f. fst (processField L env c f)) fs"
proof (induction fs arbitrary: errs)
  case Nil
  then show ?case by simp
next
  case (Cons g fs)
  then show ?case by (simp only: processFields_Cons_fst list.map)
qed

lemma processFields_keys:
  "fst ` set (snd (processFields L env c fs errs))
     = fst ` set errs \<union> {path f | f. f \<in> set fs \<and> snd (processField L env c f) \<noteq> None}"
proof (induction fs arbitrary: errs)
  case Nil
  then show ?case by simp
next
  case (Cons g fs)
  show ?case
  proof (cases "snd (processField L env c g)")
    case None
    with Cons.IH [of errs] show ?thesis
      by (simp only: processFields_Cons_snd) auto
  next
    case (Some x)
    with Cons.IH [of "AList.update (path g) x errs"] show ?thesis
      by (simp only: processFields_Cons_snd) (auto simp: dom_update)
  qed
qed

lemma processFields_other:
  "\<forall>g\<in>set fs. path g = k \<longrightarrow> snd (processField L env c g) = None \<Longrightarrow>
   map_of (snd (processFields L env c fs errs)) k = map_of errs k"
proof (induction fs arbitrary: errs)
  case Nil
  then show ?case by simp
next
  case (Cons g fs)
  then have rest: "\<forall>h\<in>set fs. path h = k \<longrightarrow> snd (processField L env c h) = None" by simp
  show ?case
  proof (cases "snd (processField L env c g)")
    case None
    with Cons.IH [OF rest, of errs] show ?thesis
      by (simp only: processFields_Cons_snd) simp
  next
    case (Some x)
    with Cons.prems have "path g \<noteq> k" by auto
    with Some Cons.IH [OF rest, of "AList.update (path g) x errs"] show ?thesis
      by (simp only: processFields_Cons_snd) (simp add: update_conv')
  qed
qed

lemma processFields_unique:
  "f \<in> set fs \<Longrightarrow> \<forall>g\<in>set fs. path g = path f \<longrightarrow> g = f \<Longrightarrow>
   map_of (snd (processFields L env c fs errs)) (path f)
     = (case snd (processField L env c f) of Some e \<Rightarrow> Some e | None \<Rightarrow> map_of errs (path f))"
proof (induction fs arbitrary: errs)
  case Nil
  then show ?case by simp
next
  case (Cons g fs)
  let ?e = "snd (processField L env c g)"
  let ?errs = "case ?e of Some err \<Rightarrow> AList.update (path g) err errs | None \<Rightarrow> errs"
  have step: "snd (processFields L env c (g # fs) errs) = snd (processFields L env c fs ?errs)"
    by (rule processFields_Cons_snd)
  have uniq: "\<forall>h\<in>set fs. path h = path f \<longrightarrow> h = f" using Cons.prems by simp
  have here: "map_of ?errs (path f)
      = (if g = f then (case ?e of Some x \<Rightarrow> Some x | None \<Rightarrow> map_of errs (path f))
         else map_of errs (path f))"
    using Cons.prems by (auto simp: update_conv' split: option.splits)
  show ?case
  proof (cases "f \<in> set fs")
    case True
    from Cons.IH [OF True uniq, of ?errs] here show ?thesis
      unfolding step by (auto split: option.splits)
  next
    case False
    with Cons.prems have gf: "g = f" by simp
    from False uniq have "\<forall>h\<in>set fs. path h = path f \<longrightarrow> snd (processField L env c h) = None"
      by auto
    from processFields_other [OF this, of ?errs] here gf show ?thesis
      unfolding step by (auto split: option.splits)
  qed
qed

lemma processCfg_fields:
  "processCfg L env c fs = (fs', err) \<Longrightarrow> fs' = map (\<lambda>f. fst (processField L env c f)) fs"
  using processFields_fst [of L env c fs "[]"]
  by (auto simp: processCfg_def split: prod.splits)

lemma processCfg_reports:
  assumes "processCfg L env c fs = (fs', err)" and "f \<in> set fs"
    and "snd (processField L env c f) = Some e"
  shows "\<exists>errs. err = Some (FieldErrors errs) \<and> path f \<in> fst ` set errs
           \<and> ((\<forall>g\<in>set fs. path g = path f \<longrightarrow> g = f) \<longrightarrow> map_of errs (path f) = Some e)"
proof -
  let ?errs = "snd (processFields L env c fs [])"
  from assms(2,3) have k: "path f \<in> fst ` set ?errs"
    unfolding processFields_keys by auto
  then have "?errs \<noteq> []" by auto
  with assms(1) have "err = Some (FieldErrors ?errs)"
    by (auto simp: processCfg_def split: prod.splits)
  moreover have "(\<forall>g\<in>set fs. path g = path f \<longrightarrow> g = f) \<longrightarrow> map_of ?errs (path f) = Some e"
    using processFields_unique [OF assms(2), of L env c "[]"] assms(3) by simp
  ultimately show ?thesis using k by blast
qed

lemma processCfg_silent:
  assumes "processCfg L env c fs = (fs', err)" and "f \<in> set fs"
    and "snd (processField L env c f) = None"
    and "\<forall>g\<in>set fs. path g = path f \<longrightarrow> g = f"
    and "err = Some (FieldErrors errs)"
  shows "map_of errs (path f) = None"
proof -
  from assms(1,5) have "errs = snd (processFields L env c fs [])"
    by (auto simp: processCfg_def split: prod.splits if_splits)
  with processFields_unique [OF assms(2,4), of L env c "[]"] assms(3) show ?thesis by simp
qed

lemma Load_Processed:
  "Load W L env c cfg = Processed cfg' fs' err \<Longrightarrow>
   processCfg L env c (flattenCfg W cfg' (tag c)) = (fs', err)"
  by (auto simp: Load_def loadFrom_def Let_def
      split: if_splits sum.splits outcome.splits prod.splits)

lemma processField_both:
  "required f \<Longrightarrow> setDefault f \<Longrightarrow>
   processField L env c f
     = (f, Some (Errorf ''field cannot have both a required validation and a default value''))"
  by (simp add: processField_def)

lemma processField_overlay_failed:
  "\<not> (required f \<and> setDefault f) \<Longrightarrow> overlay L env c f = (v1, Some e) \<Longrightarrow>
   processField L env c f = (f\<lparr>fv := v1\<rparr>, Some (Wrapf ''unable to set from env: '' e []))"
  by (simp add: processField_def overlay_def)

lemma processField_overlay_ok:
  "\<not> (required f \<and> setDefault f) \<Longrightarrow> overlay L env c f = (v1, None) \<Longrightarrow>
   processField L env c f
     = (if required f \<and> isZero L (ft f) v1
        then (f\<lparr>fv := v1\<rparr>, Some (Errorf ''required validation failed''))
        else if setDefault f \<and> isZero L (ft f) v1
        then (f\<lparr>fv := fst (setDefaultValue L c (ft f) v1 (defaultVal f))\<rparr>,
              map_option (\<lambda>e. Wrapf ''unable to set default: '' e [])
                (snd (setDefaultValue L c (ft f) v1 (defaultVal f))))
        else (f\<lparr>fv := v1\<rparr>, None))"
  by (auto simp: processField_def overlay_def split: prod.splits option.splits)

lemma Load_example:
  "Load exampleWorld L env exampleConfucius cfg
     = Processed cfg (fst (processCfg L env exampleConfucius cfg))
         (snd (processCfg L env exampleConfucius cfg))"
  by (simp add: Load_def exampleWorld_def exampleConfucius_def defaultConfucius_def
      findCfgFile_def decodeFile_def decodeReader_def loadFrom_def Let_def case_prod_beta)

text \<open>
  C3. When \<^verbatim>\<open>Load\<close> has decoded the record and a leaf carries both the required
  validation and a default value, \<^verbatim>\<open>Load\<close> returns the aggregated error, the leaf's
  path is one of its keys, and the detail at that key is
  \<^verbatim>\<open>field cannot have both a required validation and a default value\<close> when no other
  leaf shares the path. The leaf is returned as it was, whatever its value, and
  \<^verbatim>\<open>processField\<close> gives this result for every environment and configuration: the
  overlay, the required check and the default are not reached.
\<close>

theorem required_and_default_rejected:
  assumes "Load W L env c cfg = Processed cfg' fs' err"
    and "i < length (flattenCfg W cfg' (tag c))"
    and "f = flattenCfg W cfg' (tag c) ! i"
    and "required f" and "setDefault f"
  shows "\<exists>errs. err = Some (FieldErrors errs)
           \<and> path f \<in> fst ` set errs
           \<and> ((\<forall>g\<in>set (flattenCfg W cfg' (tag c)). path g = path f \<longrightarrow> g = f) \<longrightarrow>
                map_of errs (path f)
                  = Some (Errorf ''field cannot have both a required validation and a default value''))
           \<and> fs' ! i = f
           \<and> processField L env' c' f
               = (f, Some (Errorf ''field cannot have both a required validation and a default value''))"
proof -
  let ?fs = "flattenCfg W cfg' (tag c)"
  let ?e = "Errorf ''field cannot have both a required validation and a default value''"
  have p: "processCfg L env c ?fs = (fs', err)" using assms(1) by (rule Load_Processed)
  have mem: "f \<in> set ?fs" using assms(2,3) by simp
  have pf: "\<And>env c. processField L env c f = (f, Some ?e)"
    using assms(4,5) by (simp add: processField_both)
  then have "snd (processField L env c f) = Some ?e" by simp
  from processCfg_reports [OF p mem this] obtain errs where
    e: "err = Some (FieldErrors errs)" "path f \<in> fst ` set errs"
      "(\<forall>g\<in>set ?fs. path g = path f \<longrightarrow> g = f) \<longrightarrow> map_of errs (path f) = Some ?e"
    by blast
  have "fs' ! i = fst (processField L env c f)"
    using processCfg_fields [OF p] assms(2,3) by simp
  then have "fs' ! i = f" by (simp add: pf)
  with e pf show ?thesis by blast
qed

theorem required_and_default_rejected_witness:
  "Load exampleWorld exampleLib (environOf [(''X'', ''7'')]) exampleConfucius
       [leaf ''x'' True True ''10'' (TInt W0) (DInt 0)]
     = Processed [leaf ''x'' True True ''10'' (TInt W0) (DInt 0)]
         [leaf ''x'' True True ''10'' (TInt W0) (DInt 0)]
         (Some (FieldErrors
            [(''x'', Errorf ''field cannot have both a required validation and a default value'')]))
   \<and> processField exampleLib (environOf [(''X'', ''7'')]) exampleConfucius
         (leaf ''x'' True True ''10'' (TInt W0) (DInt 0))
     = (leaf ''x'' True True ''10'' (TInt W0) (DInt 0),
        Some (Errorf ''field cannot have both a required validation and a default value''))"
  (is "?l \<and> ?p")
proof -
  let ?f = "leaf ''x'' True True ''10'' (TInt W0) (DInt 0)"
  have l: ?l
    by (simp add: Load_example processCfg_def processField_def leaf_def case_prod_beta)
  have h2: "0 < length (flattenCfg exampleWorld [?f] (tag exampleConfucius))"
    by (simp add: exampleWorld_def)
  have h3: "?f = flattenCfg exampleWorld [?f] (tag exampleConfucius) ! 0"
    by (simp add: exampleWorld_def)
  have h4: "required ?f" and h5: "setDefault ?f" by (simp_all add: leaf_def)
  from required_and_default_rejected [OF l h2 h3 h4 h5, of "environOf [(''X'', ''7'')]" exampleConfucius]
  have ?p by blast
  with l show ?thesis by blast
qed

lemma Load_leaf:
  assumes "Load W L env c cfg = Processed cfg' fs' err"
    and "i < length (flattenCfg W cfg' (tag c))"
  shows "fs' ! i = fst (processField L env c (flattenCfg W cfg' (tag c) ! i))"
  using processCfg_fields [OF Load_Processed [OF assms(1)]] assms(2) by simp

lemma example_key: "formatEnvKey exampleLib exampleConfucius ''x'' = ''X''"
  by (simp add: formatEnvKey_def byteReplace_def ToUpper_def isASCII_def upper_defs
      exampleConfucius_def defaultConfucius_def)

lemma Load_default_leaf:
  assumes "Load W L env c cfg = Processed cfg' fs' err"
    and "i < length (flattenCfg W cfg' (tag c))"
    and "f = flattenCfg W cfg' (tag c) ! i"
    and "setDefault f" and "\<not> required f"
    and "overlay L env c f = (v1, None)"
  shows "(isZero L (ft f) v1 \<longrightarrow>
            fv (fs' ! i) = fst (setDefaultValue L c (ft f) v1 (defaultVal f))
          \<and> (\<forall>e. snd (setDefaultValue L c (ft f) v1 (defaultVal f)) = Some e \<longrightarrow>
                (\<exists>errs. err = Some (FieldErrors errs) \<and> path f \<in> fst ` set errs
                   \<and> ((\<forall>g\<in>set (flattenCfg W cfg' (tag c)). path g = path f \<longrightarrow> g = f) \<longrightarrow>
                        map_of errs (path f) = Some (Wrapf ''unable to set default: '' e [])))))
       \<and> (\<not> isZero L (ft f) v1 \<longrightarrow> fv (fs' ! i) = v1 \<and> snd (processField L env c f) = None)
       \<and> (kindOf (ft f) \<noteq> KBool \<longrightarrow>
            setDefaultValue L c (ft f) v1 (defaultVal f) = setValue L c (ft f) v1 (defaultVal f))"
proof -
  let ?fs = "flattenCfg W cfg' (tag c)"
  let ?d = "setDefaultValue L c (ft f) v1 (defaultVal f)"
  have p: "processCfg L env c ?fs = (fs', err)" using assms(1) by (rule Load_Processed)
  have mem: "f \<in> set ?fs" using assms(2,3) by simp
  have leaf: "fs' ! i = fst (processField L env c f)"
    using Load_leaf [OF assms(1,2)] assms(3) by simp
  have pf: "processField L env c f
      = (if isZero L (ft f) v1
         then (f\<lparr>fv := fst ?d\<rparr>, map_option (\<lambda>e. Wrapf ''unable to set default: '' e []) (snd ?d))
         else (f\<lparr>fv := v1\<rparr>, None))"
    using assms(4,5,6) by (simp add: processField_overlay_ok)
  have a: "isZero L (ft f) v1 \<longrightarrow> fv (fs' ! i) = fst ?d" using leaf pf by simp
  have b: "isZero L (ft f) v1 \<longrightarrow> (\<forall>e. snd ?d = Some e \<longrightarrow>
      (\<exists>errs. err = Some (FieldErrors errs) \<and> path f \<in> fst ` set errs
         \<and> ((\<forall>g\<in>set ?fs. path g = path f \<longrightarrow> g = f) \<longrightarrow>
              map_of errs (path f) = Some (Wrapf ''unable to set default: '' e []))))"
  proof (intro impI allI)
    fix e
    assume "isZero L (ft f) v1" and "snd ?d = Some e"
    with pf have "snd (processField L env c f) = Some (Wrapf ''unable to set default: '' e [])"
      by simp
    from processCfg_reports [OF p mem this]
    show "\<exists>errs. err = Some (FieldErrors errs) \<and> path f \<in> fst ` set errs
         \<and> ((\<forall>g\<in>set ?fs. path g = path f \<longrightarrow> g = f) \<longrightarrow>
              map_of errs (path f) = Some (Wrapf ''unable to set default: '' e []))" .
  qed
  have c: "\<not> isZero L (ft f) v1 \<longrightarrow> fv (fs' ! i) = v1 \<and> snd (processField L env c f) = None"
    using leaf pf by simp
  have d: "kindOf (ft f) \<noteq> KBool \<longrightarrow> ?d = setValue L c (ft f) v1 (defaultVal f)"
    by (simp add: setDefaultValue_def)
  from a b c d show ?thesis by blast
qed

text \<open>
  C4, as amended. Take a leaf of the decoded record that does not carry both tags, with
  environment use enabled. When the environment lacks the formatted key of the leaf's
  path, the overlay leaves the leaf unchanged. When it holds the key, the overlay is
  \<^verbatim>\<open>setValue\<close> of that string on the value from the file decode, for every type of
  leaf; after \<^verbatim>\<open>Load\<close> the leaf holds what that coercion left, unless the coercion
  succeeded with a zero value on a leaf that carries a default: then the leaf holds what
  the default injection left.
\<close>

theorem env_overlay:
  assumes "Load W L env c cfg = Processed cfg' fs' err"
    and "i < length (flattenCfg W cfg' (tag c))"
    and "f = flattenCfg W cfg' (tag c) ! i"
    and "\<not> (required f \<and> setDefault f)"
    and "useEnv c"
  shows "(env (formatEnvKey L c (path f)) = None \<longrightarrow> overlay L env c f = (fv f, None))
       \<and> (\<forall>s v1 e. env (formatEnvKey L c (path f)) = Some s
                    \<and> setValue L c (ft f) (fv f) s = (v1, e) \<longrightarrow>
              overlay L env c f = (v1, e)
            \<and> (e \<noteq> None \<or> \<not> setDefault f \<or> \<not> isZero L (ft f) v1 \<longrightarrow> fv (fs' ! i) = v1)
            \<and> (e = None \<and> setDefault f \<and> isZero L (ft f) v1 \<longrightarrow>
                 fv (fs' ! i) = fst (setDefaultValue L c (ft f) v1 (defaultVal f))))"
proof (intro conjI allI impI)
  assume "env (formatEnvKey L c (path f)) = None"
  then show "overlay L env c f = (fv f, None)"
    using assms(5) by (simp add: overlay_def setFromEnv_def)
next
  fix s v1 e
  assume a: "env (formatEnvKey L c (path f)) = Some s \<and> setValue L c (ft f) (fv f) s = (v1, e)"
  then show o: "overlay L env c f = (v1, e)"
    using assms(5) by (simp add: overlay_def setFromEnv_def)
  have leaf: "fs' ! i = fst (processField L env c f)"
    using Load_leaf [OF assms(1,2)] assms(3) by simp
  {
    assume "e \<noteq> None \<or> \<not> setDefault f \<or> \<not> isZero L (ft f) v1"
    then show "fv (fs' ! i) = v1"
      using o assms(4) leaf
      by (cases e) (auto simp: processField_overlay_failed processField_overlay_ok)
  }
  {
    assume "e = None \<and> setDefault f \<and> isZero L (ft f) v1"
    then show "fv (fs' ! i) = fst (setDefaultValue L c (ft f) v1 (defaultVal f))"
      using o assms(4) leaf by (auto simp: processField_overlay_ok)
  }
qed

theorem env_overlay_witness:
  "Load exampleWorld exampleLib (environOf [(''X'', ''7'')]) exampleConfucius
       [leaf ''x'' False False [] (TInt W0) (DInt 5)]
     = Processed [leaf ''x'' False False [] (TInt W0) (DInt 5)]
         [leaf ''x'' False False [] (TInt W0) (DInt 7)] None
   \<and> fv ([leaf ''x'' False False [] (TInt W0) (DInt 7)] ! 0) = DInt 7"
  (is "?l \<and> ?v")
proof -
  let ?f = "leaf ''x'' False False [] (TInt W0) (DInt 5)"
  let ?env = "environOf [(''X'', ''7'')]"
  have sv: "setValue exampleLib exampleConfucius (ft ?f) (fv ?f) ''7'' = (DInt 7, None)"
    by (simp add: leaf_def strconv_defs wrapInt_def)
  have k: "?env (formatEnvKey exampleLib exampleConfucius (path ?f)) = Some ''7''"
    by (simp add: leaf_def example_key environOf_def)
  have h5: "useEnv exampleConfucius" by (simp add: exampleConfucius_def)
  have l: ?l
    using sv k h5
    by (simp add: Load_example processCfg_def processField_def setFromEnv_def leaf_def
        case_prod_beta)
  have h2: "0 < length (flattenCfg exampleWorld [?f] (tag exampleConfucius))"
    by (simp add: exampleWorld_def)
  have h3: "?f = flattenCfg exampleWorld [?f] (tag exampleConfucius) ! 0"
    by (simp add: exampleWorld_def)
  have h4: "\<not> (required ?f \<and> setDefault ?f)" by (simp add: leaf_def)
  have nd: "\<not> setDefault ?f" by (simp add: leaf_def)
  from env_overlay [OF l h2 h3 h4 h5] k sv nd have ?v by blast
  with l show ?thesis by blast
qed

text \<open>
  C4 as stated fails: with \<^verbatim>\<open>X=0\<close> in the environment, an \<^verbatim>\<open>int\<close> leaf at path
  \<^verbatim>\<open>x\<close> with the default \<^verbatim>\<open>10\<close> and the file value \<open>5\<close> holds \<open>10\<close> after
  \<^verbatim>\<open>Load\<close>, not the coercion \<open>0\<close> of the environment string.
\<close>

theorem env_overlay_counterexample:
  "Load exampleWorld exampleLib (environOf [(''X'', ''0'')]) exampleConfucius
       [leaf ''x'' False True ''10'' (TInt W0) (DInt 5)]
     = Processed [leaf ''x'' False True ''10'' (TInt W0) (DInt 5)]
         [leaf ''x'' False True ''10'' (TInt W0) (DInt 10)] None
   \<and> environOf [(''X'', ''0'')] (formatEnvKey exampleLib exampleConfucius ''x'') = Some ''0''
   \<and> setValue exampleLib exampleConfucius (TInt W0) (DInt 5) ''0'' = (DInt 0, None)"
proof -
  have k: "environOf [(''X'', ''0'')] (formatEnvKey exampleLib exampleConfucius ''x'') = Some ''0''"
    by (simp add: example_key environOf_def)
  have sv: "setValue exampleLib exampleConfucius (TInt W0) (DInt 5) ''0'' = (DInt 0, None)"
    by (simp add: strconv_defs wrapInt_def)
  have z: "isZero exampleLib (TInt W0) (DInt 0)" by (simp add: exampleLib_def)
  have d: "setDefaultValue exampleLib exampleConfucius (TInt W0) (DInt 0) ''10'' = (DInt 10, None)"
    by (simp add: setDefaultValue_def strconv_defs wrapInt_def)
  have u: "useEnv exampleConfucius" by (simp add: exampleConfucius_def)
  show ?thesis
    using k sv z d u
    by (simp add: Load_example processCfg_def processField_def setFromEnv_def leaf_def
        case_prod_beta)
qed

text \<open>
  C5, as amended. Take a leaf of the decoded record that carries a default and not the
  required validation, and whose environment overlay returned no error, leaving the
  value \<open>v1\<close>. If \<open>v1\<close> is zero, the leaf holds after \<^verbatim>\<open>Load\<close> what
  \<^verbatim>\<open>setDefaultValue\<close> of the default literal left, and an error of it is reported
  as \<^verbatim>\<open>unable to set default: \<close> followed by the detail, under the leaf's path (the
  detail exact when no other leaf shares the path). If \<open>v1\<close> is not zero, the leaf holds
  \<open>v1\<close> and has no error. Unless the leaf is a boolean, \<^verbatim>\<open>setDefaultValue\<close> is the
  coercion \<^verbatim>\<open>setValue\<close>.
\<close>

theorem default_injection:
  assumes "Load W L env c cfg = Processed cfg' fs' err"
    and "i < length (flattenCfg W cfg' (tag c))"
    and "f = flattenCfg W cfg' (tag c) ! i"
    and "setDefault f" and "\<not> required f"
    and "overlay L env c f = (v1, None)"
  shows "(isZero L (ft f) v1 \<longrightarrow>
            fv (fs' ! i) = fst (setDefaultValue L c (ft f) v1 (defaultVal f))
          \<and> (\<forall>e. snd (setDefaultValue L c (ft f) v1 (defaultVal f)) = Some e \<longrightarrow>
                (\<exists>errs. err = Some (FieldErrors errs) \<and> path f \<in> fst ` set errs
                   \<and> ((\<forall>g\<in>set (flattenCfg W cfg' (tag c)). path g = path f \<longrightarrow> g = f) \<longrightarrow>
                        map_of errs (path f) = Some (Wrapf ''unable to set default: '' e [])))))
       \<and> (\<not> isZero L (ft f) v1 \<longrightarrow> fv (fs' ! i) = v1 \<and> snd (processField L env c f) = None)
       \<and> (kindOf (ft f) \<noteq> KBool \<longrightarrow>
            setDefaultValue L c (ft f) v1 (defaultVal f) = setValue L c (ft f) v1 (defaultVal f))"
  using assms by (rule Load_default_leaf)

theorem default_injection_witness:
  "Load exampleWorld exampleLib (environOf []) exampleConfucius
       [leaf ''x'' False True ''10'' (TInt W0) (DInt 0)]
     = Processed [leaf ''x'' False True ''10'' (TInt W0) (DInt 0)]
         [leaf ''x'' False True ''10'' (TInt W0) (DInt 10)] None
   \<and> fv ([leaf ''x'' False True ''10'' (TInt W0) (DInt 10)] ! 0)
       = fst (setValue exampleLib exampleConfucius (TInt W0) (DInt 0) ''10'')"
  (is "?l \<and> ?v")
proof -
  let ?f = "leaf ''x'' False True ''10'' (TInt W0) (DInt 0)"
  let ?env = "environOf []"
  have o: "overlay exampleLib ?env exampleConfucius ?f = (DInt 0, None)"
    by (simp add: overlay_def setFromEnv_def environOf_def leaf_def)
  have z: "isZero exampleLib (ft ?f) (DInt 0)" by (simp add: exampleLib_def leaf_def)
  have d: "setDefaultValue exampleLib exampleConfucius (TInt W0) (DInt 0) ''10'' = (DInt 10, None)"
    by (simp add: setDefaultValue_def strconv_defs wrapInt_def)
  have h4: "setDefault ?f" and h5: "\<not> required ?f" by (simp_all add: leaf_def)
  have l: ?l
    using processField_overlay_ok [of ?f exampleLib ?env exampleConfucius "DInt 0"] o z d h4 h5
    by (simp add: Load_example processCfg_def case_prod_beta leaf_def)
  have h2: "0 < length (flattenCfg exampleWorld [?f] (tag exampleConfucius))"
    by (simp add: exampleWorld_def)
  have h3: "?f = flattenCfg exampleWorld [?f] (tag exampleConfucius) ! 0"
    by (simp add: exampleWorld_def)
  have k: "kindOf (ft ?f) \<noteq> KBool" and t: "ft ?f = TInt W0" and dv: "defaultVal ?f = ''10''"
    by (simp_all add: leaf_def)
  from default_injection [OF l h2 h3 h4 h5 o] z k
  have "fv ([leaf ''x'' False True ''10'' (TInt W0) (DInt 10)] ! 0)
      = fst (setValue exampleLib exampleConfucius (ft ?f) (DInt 0) (defaultVal ?f))"
    by metis
  then have ?v by (simp only: t dv)
  with l show ?thesis by blast
qed

text \<open>
  C5 as stated fails: with \<^verbatim>\<open>X=abc\<close> in the environment, an \<^verbatim>\<open>int\<close> leaf at path
  \<^verbatim>\<open>x\<close> with the default \<^verbatim>\<open>10\<close> and the value \<open>0\<close> is zero after the overlay
  (which fails), and after \<^verbatim>\<open>Load\<close> it still holds \<open>0\<close>, not the coercion \<open>10\<close> of
  the default; the error reported is the overlay's.
\<close>

theorem default_injection_counterexample:
  "Load exampleWorld exampleLib (environOf [(''X'', ''abc'')]) exampleConfucius
       [leaf ''x'' False True ''10'' (TInt W0) (DInt 0)]
     = Processed [leaf ''x'' False True ''10'' (TInt W0) (DInt 0)]
         [leaf ''x'' False True ''10'' (TInt W0) (DInt 0)]
         (Some (FieldErrors
            [(''x'', Wrapf ''unable to set from env: '' (NumError ''ParseInt'' ''abc'' ErrSyntax) [])]))
   \<and> isZero exampleLib (TInt W0) (DInt 0)
   \<and> setValue exampleLib exampleConfucius (TInt W0) (DInt 0) ''10'' = (DInt 10, None)"
proof -
  have k: "environOf [(''X'', ''abc'')] (formatEnvKey exampleLib exampleConfucius ''x'') = Some ''abc''"
    by (simp add: example_key environOf_def)
  have sv: "setValue exampleLib exampleConfucius (TInt W0) (DInt 0) ''abc''
      = (DInt 0, Some (NumError ''ParseInt'' ''abc'' ErrSyntax))"
    by (simp add: strconv_defs)
  have z: "isZero exampleLib (TInt W0) (DInt 0)" by (simp add: exampleLib_def)
  have d: "setValue exampleLib exampleConfucius (TInt W0) (DInt 0) ''10'' = (DInt 10, None)"
    by (simp add: strconv_defs wrapInt_def)
  have u: "useEnv exampleConfucius" by (simp add: exampleConfucius_def)
  have "Load exampleWorld exampleLib (environOf [(''X'', ''abc'')]) exampleConfucius
       [leaf ''x'' False True ''10'' (TInt W0) (DInt 0)]
     = Processed [leaf ''x'' False True ''10'' (TInt W0) (DInt 0)]
         [leaf ''x'' False True ''10'' (TInt W0) (DInt 0)]
         (Some (FieldErrors
            [(''x'', Wrapf ''unable to set from env: '' (NumError ''ParseInt'' ''abc'' ErrSyntax) [])]))"
    using k sv u
    by (simp add: Load_example processCfg_def processField_def setFromEnv_def leaf_def
        case_prod_beta)
  with z d show ?thesis by blast
qed

text \<open>
  C6, as amended. Take a boolean leaf of the decoded record that carries a default and
  not the required validation, and whose environment overlay returned no error; false
  is the zero value of a boolean. If the leaf is false after the overlay, \<^verbatim>\<open>Load\<close>
  reports \<^verbatim>\<open>unable to set default: unsupported type: bool\<close> under the leaf's path and
  the leaf stays false. If the leaf is true, it stays true and has no error.
  \<^verbatim>\<open>setDefaultValue\<close> itself rejects a boolean for every literal and every value.
\<close>

theorem bool_default:
  assumes "Load W L env c cfg = Processed cfg' fs' err"
    and "i < length (flattenCfg W cfg' (tag c))"
    and "f = flattenCfg W cfg' (tag c) ! i"
    and "ft f = TBool" and "setDefault f" and "\<not> required f"
    and "overlay L env c f = (DBool b, None)"
    and "\<And>x. isZero L TBool (DBool x) = (\<not> x)"
  shows "(\<not> b \<longrightarrow>
            fv (fs' ! i) = DBool False
          \<and> (\<exists>errs. err = Some (FieldErrors errs) \<and> path f \<in> fst ` set errs
                \<and> ((\<forall>g\<in>set (flattenCfg W cfg' (tag c)). path g = path f \<longrightarrow> g = f) \<longrightarrow>
                     map_of errs (path f)
                       = Some (Wrapf ''unable to set default: ''
                                 (Errorf ''unsupported type: bool'') []))))
       \<and> (b \<longrightarrow> fv (fs' ! i) = DBool True \<and> snd (processField L env c f) = None)
       \<and> setDefaultValue L c TBool d val = (d, Some (Errorf ''unsupported type: bool''))"
proof -
  let ?fs = "flattenCfg W cfg' (tag c)"
  have sd: "\<And>d val. setDefaultValue L c TBool d val = (d, Some (Errorf ''unsupported type: bool''))"
    by (simp add: setDefaultValue_def)
  note di = Load_default_leaf [OF assms(1,2,3,5,6,7)]
  have z: "isZero L (ft f) (DBool b) = (\<not> b)" using assms(4,8) by simp
  have a: "\<not> b \<longrightarrow> fv (fs' ! i) = DBool False"
    using di z assms(4) sd by auto
  have r: "\<not> b \<longrightarrow> (\<exists>errs. err = Some (FieldErrors errs) \<and> path f \<in> fst ` set errs
                \<and> ((\<forall>g\<in>set ?fs. path g = path f \<longrightarrow> g = f) \<longrightarrow>
                     map_of errs (path f)
                       = Some (Wrapf ''unable to set default: ''
                                 (Errorf ''unsupported type: bool'') [])))"
  proof
    assume "\<not> b"
    with z have "isZero L (ft f) (DBool b)" by simp
    moreover have "snd (setDefaultValue L c (ft f) (DBool b) (defaultVal f))
        = Some (Errorf ''unsupported type: bool'')"
      using assms(4) sd by simp
    ultimately show "\<exists>errs. err = Some (FieldErrors errs) \<and> path f \<in> fst ` set errs
                \<and> ((\<forall>g\<in>set ?fs. path g = path f \<longrightarrow> g = f) \<longrightarrow>
                     map_of errs (path f)
                       = Some (Wrapf ''unable to set default: ''
                                 (Errorf ''unsupported type: bool'') []))"
      using di by blast
  qed
  have t: "b \<longrightarrow> fv (fs' ! i) = DBool True \<and> snd (processField L env c f) = None"
    using di z by auto
  from a r t sd show ?thesis by blast
qed

theorem bool_default_witness:
  "Load exampleWorld exampleLib (environOf []) exampleConfucius
       [leaf ''x'' False True ''true'' TBool (DBool False)]
     = Processed [leaf ''x'' False True ''true'' TBool (DBool False)]
         [leaf ''x'' False True ''true'' TBool (DBool False)]
         (Some (FieldErrors
            [(''x'', Wrapf ''unable to set default: '' (Errorf ''unsupported type: bool'') [])]))
   \<and> fv ([leaf ''x'' False True ''true'' TBool (DBool False)] ! 0) = DBool False"
  (is "?l \<and> ?v")
proof -
  let ?f = "leaf ''x'' False True ''true'' TBool (DBool False)"
  let ?env = "environOf []"
  have o: "overlay exampleLib ?env exampleConfucius ?f = (DBool False, None)"
    by (simp add: overlay_def setFromEnv_def environOf_def leaf_def)
  have z: "\<And>x. isZero exampleLib TBool (DBool x) = (\<not> x)" by (simp add: exampleLib_def)
  have h4: "ft ?f = TBool" and h5: "setDefault ?f" and h6: "\<not> required ?f"
    by (simp_all add: leaf_def)
  have l: ?l
    using processField_overlay_ok [of ?f exampleLib ?env exampleConfucius "DBool False"] o z h5 h6
    by (simp add: Load_example processCfg_def case_prod_beta leaf_def setDefaultValue_def)
  have h2: "0 < length (flattenCfg exampleWorld [?f] (tag exampleConfucius))"
    by (simp add: exampleWorld_def)
  have h3: "?f = flattenCfg exampleWorld [?f] (tag exampleConfucius) ! 0"
    by (simp add: exampleWorld_def)
  from bool_default [OF l h2 h3 h4 h5 h6 o z] have ?v by blast
  with l show ?thesis by blast
qed

text \<open>
  C6 as stated fails: a boolean leaf that is true and carries the default \<^verbatim>\<open>true\<close>
  is not rejected; \<^verbatim>\<open>Load\<close> returns no error.
\<close>

theorem bool_default_counterexample:
  "Load exampleWorld exampleLib (environOf []) exampleConfucius
       [leaf ''x'' False True ''true'' TBool (DBool True)]
     = Processed [leaf ''x'' False True ''true'' TBool (DBool True)]
         [leaf ''x'' False True ''true'' TBool (DBool True)] None"
proof -
  let ?f = "leaf ''x'' False True ''true'' TBool (DBool True)"
  have o: "overlay exampleLib (environOf []) exampleConfucius ?f = (DBool True, None)"
    by (simp add: overlay_def setFromEnv_def environOf_def leaf_def)
  have z: "\<not> isZero exampleLib TBool (DBool True)" by (simp add: exampleLib_def)
  have h5: "setDefault ?f" and h6: "\<not> required ?f" by (simp_all add: leaf_def)
  show ?thesis
    using processField_overlay_ok [of ?f exampleLib "environOf []" exampleConfucius "DBool True"]
      o z h5 h6
    by (simp add: Load_example processCfg_def case_prod_beta leaf_def)
qed

section \<open>The load orchestrator: the primary file and the profiles\<close>

lemma HasPrefix_single: "HasPrefix s [c] = (s \<noteq> [] \<and> hd s = c)"
  by (cases s) (auto simp: HasPrefix_def)

lemma Index_single_None: "c \<notin> set s \<Longrightarrow> Index s [c] = None"
  by (induction s) (auto simp: HasPrefix_single)

lemma Index_single_Some: "c \<notin> set a \<Longrightarrow> Index (a @ c # b) [c] = Some (length a)"
  by (induction a) (auto simp: HasPrefix_single)

lemma Split_single_none: "c \<notin> set s \<Longrightarrow> Split s [c] = [s]"
  by (subst Split.simps) (simp add: Index_single_None)

lemma Split_single_first: "c \<notin> set a \<Longrightarrow> Split (a @ c # b) [c] = a # Split b [c]"
  by (subst Split.simps) (simp add: Index_single_Some)

lemma Split_nonempty: "sep \<noteq> [] \<Longrightarrow> Split s sep \<noteq> []"
  by (subst Split.simps) (simp split: option.splits)

lemma Split_single_hd: "hd (Split b [c]) = takeWhile (\<lambda>x. x \<noteq> c) b"
proof (cases "c \<in> set b")
  case False
  then have "hd (Split b [c]) = b" by (simp add: Split_single_none)
  also have "b = takeWhile (\<lambda>x. x \<noteq> c) b" using False by (induction b) auto
  finally show ?thesis .
next
  case True
  then obtain a d where b: "b = a @ c # d" and a: "c \<notin> set a"
    by (meson split_list_first)
  then have "takeWhile (\<lambda>x. x \<noteq> c) b = a"
    by (induction a arbitrary: b) auto
  with a b show ?thesis by (simp add: Split_single_first)
qed

lemma Split_dot_length: "(length (Split s ''.'') \<le> Suc 0) = (CHR ''.'' \<notin> set s)"
proof (cases "CHR ''.'' \<in> set s")
  case False
  then show ?thesis by (simp add: Split_single_none)
next
  case True
  then obtain a d where "s = a @ CHR ''.'' # d" and "CHR ''.'' \<notin> set a"
    by (meson split_list_first)
  then have "Split s ''.'' = a # Split d ''.''" by (simp add: Split_single_first)
  moreover have "Split d ''.'' \<noteq> []" by (rule Split_nonempty) simp
  ultimately show ?thesis using True by (cases "Split d ''.''") simp_all
qed





lemma Load_reader:
  "useReader c \<Longrightarrow> isStructPtr W cfg \<Longrightarrow>
   Load W L env c cfg =
     (case decodeReader W c (readerConfig c) (readerDecoder c) of
        Inl err \<Rightarrow> Failed err
      | Inr readerVals \<Rightarrow>
          (case merge W readerVals (primaryVals W c) of
             Inl err \<Rightarrow> Failed err
           | Inr vals \<Rightarrow> loadFrom W L env c cfg vals))"
  unfolding Load_def primaryVals_def by (simp add: Let_def)

lemma Load_file:
  "\<not> useReader c \<Longrightarrow> isStructPtr W cfg \<Longrightarrow>
   Load W L env c cfg =
     (case findCfgFile W c of
        Inl err \<Rightarrow> Failed err
      | Inr file \<Rightarrow>
          (case decodeFile W c file of
             Inl err \<Rightarrow> Failed err
           | Inr vals \<Rightarrow> loadFrom W L env c cfg vals))"
  by (auto simp: Load_def Let_def split: sum.splits)

lemma profileFileName_Panic:
  "(profileFileName c profile = Panic) = (CHR ''.'' \<notin> set (filename c))"
  by (simp add: profileFileName_def Let_def Split_dot_length)

lemma loadProfiles_Panic:
  "CHR ''.'' \<notin> set (filename c) \<Longrightarrow> ps \<noteq> [] \<Longrightarrow> loadProfiles W c ps vals = Panic"
  by (cases ps) (simp_all add: findProfileCfgFile_def profileFileName_Panic [THEN iffD2])

lemma loadFrom_Panicked:
  "CHR ''.'' \<notin> set (filename c) \<Longrightarrow> profiles c \<noteq> [] \<Longrightarrow>
   loadFrom W L env c cfg vals = Panicked"
  by (simp add: loadFrom_def loadProfiles_Panic)

lemma Load_not_Processed:
  "CHR ''.'' \<notin> set (filename c) \<Longrightarrow> profiles c \<noteq> [] \<Longrightarrow>
   Load W L env c cfg = Panicked \<or> (\<exists>e. Load W L env c cfg = Failed e)"
  by (auto simp: Load_def Let_def loadFrom_Panicked split: sum.splits)

lemma profileFileName_parts:
  assumes "filename c = base @ ''.'' @ rest" and "CHR ''.'' \<notin> set base"
  shows "profileFileName c profile =
     Returned (ReplaceAll (ReplaceAll (ReplaceAll (profileLayout c) ''config'' base) ''test'' profile)
        ''yaml'' (takeWhile (\<lambda>x. x \<noteq> CHR ''.'') rest))"
proof -
  have s: "Split (filename c) ''.'' = base # Split rest ''.''"
    using assms by (simp add: Split_single_first)
  have ne: "Split rest ''.'' \<noteq> []" by (rule Split_nonempty) simp
  then have "Split (filename c) ''.'' ! 1 = hd (Split rest ''.'')"
    using s by (simp add: hd_conv_nth)
  then have "Split (filename c) ''.'' ! 1 = takeWhile (\<lambda>x. x \<noteq> CHR ''.'') rest"
    by (simp add: Split_single_hd)
  moreover have "\<not> length (Split (filename c) ''.'') \<le> 1"
    using s ne by (cases "Split rest ''.''") simp_all
  ultimately show ?thesis using s by (simp add: profileFileName_def Let_def)
qed



lemma findCfgFile_example:
  "findCfgFile exampleWorld c = Inl (Wrapf (filename c @ '': '') ErrFileNotFound [])"
proof -
  have "findIn exampleWorld ds nm = Inl (Wrapf (nm @ '': '') ErrFileNotFound [])"
    for ds nm
    by (induction ds) (simp_all add: exampleWorld_def)
  then show ?thesis by (simp add: findCfgFile_def)
qed


text \<open>
  C10, as amended. \<^verbatim>\<open>profileFileName\<close> panics exactly when the primary filename
  holds no \<^verbatim>\<open>.\<close>. For such a filename and at least one profile, the load panics
  whenever it reaches the profiles: in file mode when the primary file was found and
  decoded, in reader mode when the reader's values were decoded and merged; otherwise
  it returns the error of an earlier step, and it never gets to the typed decode. For a
  filename \<^verbatim>\<open>base.rest\<close> the result is the layout with \<^verbatim>\<open>config\<close> replaced by
  \<^verbatim>\<open>base\<close>, then \<^verbatim>\<open>test\<close> by the profile, then \<^verbatim>\<open>yaml\<close> by the second part of
  the filename.
\<close>

theorem profile_name_needs_dot:
  "(profileFileName c profile = Panic \<longleftrightarrow> CHR ''.'' \<notin> set (filename c))
   \<and> (CHR ''.'' \<notin> set (filename c) \<and> profiles c \<noteq> [] \<longrightarrow>
        loadFrom W L env c cfg vals = Panicked
      \<and> (Load W L env c cfg = Panicked \<or> (\<exists>e. Load W L env c cfg = Failed e))
      \<and> (isStructPtr W cfg \<and> \<not> useReader c \<and> findCfgFile W c = Inr file
           \<and> decodeFile W c file = Inr vals \<longrightarrow> Load W L env c cfg = Panicked)
      \<and> (isStructPtr W cfg \<and> useReader c
           \<and> decodeReader W c (readerConfig c) (readerDecoder c) = Inr rv
           \<and> merge W rv (primaryVals W c) = Inr vals \<longrightarrow> Load W L env c cfg = Panicked))
   \<and> (\<forall>base rest. filename c = base @ ''.'' @ rest \<and> CHR ''.'' \<notin> set base \<longrightarrow>
        profileFileName c profile =
          Returned (ReplaceAll (ReplaceAll (ReplaceAll (profileLayout c) ''config'' base)
                      ''test'' profile) ''yaml'' (takeWhile (\<lambda>x. x \<noteq> CHR ''.'') rest)))"
proof (intro conjI impI allI)
  show "(profileFileName c profile = Panic) = (CHR ''.'' \<notin> set (filename c))"
    by (rule profileFileName_Panic)
next
  fix base rest
  assume "filename c = base @ ''.'' @ rest \<and> CHR ''.'' \<notin> set base"
  then show "profileFileName c profile =
          Returned (ReplaceAll (ReplaceAll (ReplaceAll (profileLayout c) ''config'' base)
                      ''test'' profile) ''yaml'' (takeWhile (\<lambda>x. x \<noteq> CHR ''.'') rest))"
    using profileFileName_parts by blast
next
  assume a: "CHR ''.'' \<notin> set (filename c) \<and> profiles c \<noteq> []"
  then show p: "loadFrom W L env c cfg vals = Panicked" by (simp add: loadFrom_Panicked)
  from a show "Load W L env c cfg = Panicked \<or> (\<exists>e. Load W L env c cfg = Failed e)"
    by (simp add: Load_not_Processed)
  {
    assume "isStructPtr W cfg \<and> \<not> useReader c \<and> findCfgFile W c = Inr file
           \<and> decodeFile W c file = Inr vals"
    then show "Load W L env c cfg = Panicked" using p by (simp add: Load_file)
  }
  {
    assume "isStructPtr W cfg \<and> useReader c
           \<and> decodeReader W c (readerConfig c) (readerDecoder c) = Inr rv
           \<and> merge W rv (primaryVals W c) = Inr vals"
    then show "Load W L env c cfg = Panicked" using p by (simp add: Load_reader)
  }
qed

lemmas replace_defs = ReplaceAll.simps HasPrefix_def

theorem profile_name_needs_dot_witness:
  "Load exampleWorld exampleLib (environOf [])
       (exampleConfucius\<lparr>filename := ''config'', profiles := [''test'']\<rparr>)
       [leaf ''x'' False False [] (TInt W0) (DInt 5)] = Panicked
   \<and> profileFileName (defaultConfucius\<lparr>filename := ''server.yaml''\<rparr>) ''test''
       = Returned ''server.test.yaml''
   \<and> profileFileName (defaultConfucius\<lparr>filename := ''test.yaml''\<rparr>) ''prod''
       = Returned ''prod.prod.yaml''"
  (is "?l \<and> ?p \<and> ?q")
proof -
  let ?c = "exampleConfucius\<lparr>filename := ''config'', profiles := [''test'']\<rparr>"
  let ?cfg = "[leaf ''x'' False False [] (TInt W0) (DInt 5)]"
  have h: "CHR ''.'' \<notin> set (filename ?c) \<and> profiles ?c \<noteq> []" by simp
  have s: "isStructPtr exampleWorld ?cfg \<and> useReader ?c
      \<and> decodeReader exampleWorld ?c (readerConfig ?c) (readerDecoder ?c) = Inr ''x: 1''
      \<and> merge exampleWorld ''x: 1'' (primaryVals exampleWorld ?c) = Inr ''x: 1''"
    by (simp add: exampleWorld_def exampleConfucius_def decodeReader_def primaryVals_def
        decodeFile_def)
  from profile_name_needs_dot [of ?c _ exampleWorld exampleLib "environOf []" ?cfg "''x: 1''" _ "''x: 1''"] h s
  have l: ?l by blast
  let ?d = "defaultConfucius\<lparr>filename := ''server.yaml''\<rparr>"
  have hd: "filename ?d = ''server'' @ ''.'' @ ''yaml'' \<and> CHR ''.'' \<notin> set ''server''" by simp
  note Td = profile_name_needs_dot [of ?d "''test''", THEN conjunct2, THEN conjunct2,
      rule_format, of "''server''" "''yaml''"]
  have "profileFileName ?d ''test'' =
          Returned (ReplaceAll (ReplaceAll (ReplaceAll (profileLayout ?d) ''config'' ''server'')
                      ''test'' ''test'') ''yaml'' (takeWhile (\<lambda>x. x \<noteq> CHR ''.'') ''yaml''))"
    using hd by (rule Td)
  then have p: ?p by (simp add: defaultConfucius_def replace_defs)
  let ?e = "defaultConfucius\<lparr>filename := ''test.yaml''\<rparr>"
  have he: "filename ?e = ''test'' @ ''.'' @ ''yaml'' \<and> CHR ''.'' \<notin> set ''test''" by simp
  note Te = profile_name_needs_dot [of ?e "''prod''", THEN conjunct2, THEN conjunct2,
      rule_format, of "''test''" "''yaml''"]
  have "profileFileName ?e ''prod'' =
          Returned (ReplaceAll (ReplaceAll (ReplaceAll (profileLayout ?e) ''config'' ''test'')
                      ''test'' ''prod'') ''yaml'' (takeWhile (\<lambda>x. x \<noteq> CHR ''.'') ''yaml''))"
    using he by (rule Te)
  then have q: ?q by (simp add: defaultConfucius_def replace_defs)
  from l p q show ?thesis by blast
qed

text \<open>
  C10 as stated fails: with the filename \<^verbatim>\<open>config\<close>, the profile \<^verbatim>\<open>test\<close> and no
  reader, in a world without files, \<^verbatim>\<open>Load\<close> returns the file-not-found error and
  does not panic.
\<close>

theorem profile_name_needs_dot_counterexample:
  "Load exampleWorld exampleLib (environOf [])
       (defaultConfucius\<lparr>filename := ''config'', profiles := [''test'']\<rparr>)
       [leaf ''x'' False False [] (TInt W0) (DInt 5)]
     = Failed (Wrapf ''config: '' ErrFileNotFound [])
   \<and> CHR ''.'' \<notin> set (filename (defaultConfucius\<lparr>filename := ''config'', profiles := [''test'']\<rparr>))
   \<and> profiles (defaultConfucius\<lparr>filename := ''config'', profiles := [''test'']\<rparr>) \<noteq> []"
proof -
  let ?c = "defaultConfucius\<lparr>filename := ''config'', profiles := [''test'']\<rparr>"
  have u: "\<not> useReader ?c" by (simp add: defaultConfucius_def)
  have s: "isStructPtr exampleWorld [leaf ''x'' False False [] (TInt W0) (DInt 5)]"
    by (simp add: exampleWorld_def)
  have f: "findCfgFile exampleWorld ?c = Inl (Wrapf ''config: '' ErrFileNotFound [])"
    by (simp add: findCfgFile_example)
  from u s f show ?thesis by (simp add: Load_file)
qed

section \<open>Substitution of environment variables in a text of pieces\<close>

































text \<open>A default that holds a colon is cut there: \<^verbatim>\<open>strings.Split\<close> splits at every colon.\<close>

lemma default_cut_at_colon:
  "replaceEnvironments (environOf []) ''${URL:http://x}'' = (''http'', None)"
  by (simp add: replaceEnvironments_def Split.simps ReplaceAll.simps HasPrefix_def environOf_def)

text \<open>
  A substituted value is scanned again by the passes for the later tokens: with
  \<^verbatim>\<open>FOO=${BAR}\<close> and \<^verbatim>\<open>BAR=b\<close> the text \<^verbatim>\<open>${FOO}${BAR}\<close> becomes \<^verbatim>\<open>bb\<close>.
\<close>

lemma substituted_text_rescanned:
  "replaceEnvironments (environOf [(''FOO'', ''${BAR}''), (''BAR'', ''b'')]) ''${FOO}${BAR}''
     = (''bb'', None)"
  by (simp add: replaceEnvironments_def Split.simps ReplaceAll.simps HasPrefix_def environOf_def)

end
